theory Spec2Isabelle
  imports Main
begin

section \<open>Strings\<close>

text \<open>
  A JavaScript string is modelled as a \<^typ>\<open>string\<close>: one \<^typ>\<open>char\<close> per code unit, for
  texts whose code units are below 256.  The string methods the handlers use are written
  out below with the behaviour ECMAScript gives them.
\<close>

definition newline :: char where
  "newline = CHR 0x0A"

definition isLineTerminator :: "char \<Rightarrow> bool" where
  "isLineTerminator c = (c = CHR 0x0A \<or> c = CHR 0x0D)"

text \<open>The class \<open>\s\<close>, which is also what \<open>trim\<close> strips: white space and line terminators.\<close>

definition isWhiteSpace :: "char \<Rightarrow> bool" where
  "isWhiteSpace c =
     (c = CHR 0x09 \<or> c = CHR 0x0A \<or> c = CHR 0x0B \<or> c = CHR 0x0C \<or> c = CHR 0x0D
      \<or> c = CHR 0x20 \<or> c = CHR 0xA0)"

definition isDigit :: "char \<Rightarrow> bool" where
  "isDigit c = (c \<in> set ''0123456789'')"

fun startsWith :: "string \<Rightarrow> string \<Rightarrow> bool" where
  "startsWith s [] = True"
| "startsWith [] (p # ps) = False"
| "startsWith (c # cs) (p # ps) = (c = p \<and> startsWith cs ps)"

definition endsWith :: "string \<Rightarrow> string \<Rightarrow> bool" where
  "endsWith s p = startsWith (rev s) (rev p)"

fun str_includes :: "string \<Rightarrow> string \<Rightarrow> bool" where
  "str_includes [] sub = (sub = [])"
| "str_includes (c # cs) sub = (startsWith (c # cs) sub \<or> str_includes cs sub)"

definition trim :: "string \<Rightarrow> string" where
  "trim s = rev (dropWhile isWhiteSpace (rev (dropWhile isWhiteSpace s)))"

text \<open>\<open>s.split('\n')\<close> and \<open>lines.join('\n')\<close>.\<close>

fun split_nl :: "string \<Rightarrow> string list" where
  "split_nl [] = [[]]"
| "split_nl (c # cs) =
     (if c = newline then [] # split_nl cs
      else (case split_nl cs of [] \<Rightarrow> [[c]] | l # ls \<Rightarrow> (c # l) # ls))"

fun join_nl :: "string list \<Rightarrow> string" where
  "join_nl [] = []"
| "join_nl [l] = l"
| "join_nl (l # k # ls) = l @ newline # join_nl (k # ls)"

text \<open>\<open>s.replace('/', r)\<close> with a string pattern: only the first occurrence is replaced.\<close>

fun replaceFirstSlash :: "string \<Rightarrow> string \<Rightarrow> string" where
  "replaceFirstSlash [] r = []"
| "replaceFirstSlash (c # cs) r = (if c = CHR ''/'' then r @ cs else c # replaceFirstSlash cs r)"

text \<open>\<open>s.split(sep).join('')\<close>: every occurrence of \<open>sep\<close> is removed, scanning left to
  right; an empty separator splits into single characters, whose join is \<open>s\<close> again.\<close>

function removeAll :: "string \<Rightarrow> string \<Rightarrow> string" where
  "removeAll sep [] = []"
| "removeAll sep (c # cs) =
     (if sep \<noteq> [] \<and> startsWith (c # cs) sep then removeAll sep (drop (length sep) (c # cs))
      else c # removeAll sep cs)"
  by pat_completeness auto
termination
  by (relation "measure (\<lambda>(sep, s). length s)") (auto simp: neq_Nil_conv)

section \<open>The data of a run\<close>

record branches =
  current :: string
  target :: string
  main :: string
  development :: string

record prefixes =
  feature :: string
  bugfix :: string
  hotfix :: string
  release :: string
  support :: string
  tag :: string

section \<open>The feature handler's applicability test\<close>

text \<open>The body of \<open>Feature.test\<close>, on the values \<open>getBranches\<close> and \<open>getPrefixes\<close> gave.\<close>

definition Feature_test :: "branches \<Rightarrow> prefixes \<Rightarrow> bool" where
  "Feature_test bs ps =
     (let baseBranchIsFeature = str_includes (current bs) (feature ps);
          targetBranchIsDevelopment = (target bs = ''development'');
          targetBranchIsQuality = (target bs = ''quality'')
      in baseBranchIsFeature \<and> (targetBranchIsDevelopment \<or> targetBranchIsQuality))"

section \<open>The version manager\<close>

datatype error =
    ValidationError string
  | PatternNotModelled
  | FormatError
  | BuildError string
  | NotFoundError string
  | Thrown string

subsection \<open>The pattern built by \<open>extractVersionFromBranch\<close>\<close>

text \<open>
  \<open>extractVersionFromBranch\<close> builds the source of a regular expression from three parts:
  \<open>^\<close>, the release prefix with its first \<open>/\<close> replaced by \<open>\/\<close>, and
  \<open>([0-9]+\.[0-9]+\.[0-9]+)$\<close>.  The prefix is therefore read as pattern syntax.
  The fragment of that syntax modelled here: an ordinary character, the wildcard \<open>.\<close>
  (any character but a line terminator), a backslash followed by a syntax character or by
  \<open>/\<close> (that character itself), each optionally followed by one greedy quantifier
  \<open>*\<close>, \<open>+\<close> or \<open>?\<close>.  A prefix outside the fragment gives \<open>PatternNotModelled\<close>:
  the model says nothing about it.
\<close>

datatype rx_atom = Lit char | AnyChar | Digit

datatype rx_quant = One | Star | Plus | Opt

datatype rx_token = TAtom rx_atom | TQuant rx_quant

type_synonym rx_piece = "rx_atom \<times> rx_quant"

definition backslash :: char where
  "backslash = CHR 0x5C"

definition isSyntaxCharacter :: "char \<Rightarrow> bool" where
  "isSyntaxCharacter c = (c = backslash \<or> c \<in> set ''^$.*+?()[]{}|'')"

fun tokens :: "string \<Rightarrow> rx_token list option" where
  "tokens [] = Some []"
| "tokens (c # cs) =
     (if c = backslash then
        (case cs of
           [] \<Rightarrow> None
         | d # ds \<Rightarrow>
             if isSyntaxCharacter d \<or> d = CHR ''/''
             then map_option (Cons (TAtom (Lit d))) (tokens ds) else None)
      else if c = CHR ''.'' then map_option (Cons (TAtom AnyChar)) (tokens cs)
      else if c = CHR ''*'' then map_option (Cons (TQuant Star)) (tokens cs)
      else if c = CHR ''+'' then map_option (Cons (TQuant Plus)) (tokens cs)
      else if c = CHR ''?'' then map_option (Cons (TQuant Opt)) (tokens cs)
      else if isSyntaxCharacter c then None
      else map_option (Cons (TAtom (Lit c))) (tokens cs))"

fun pieces :: "rx_token list \<Rightarrow> rx_piece list option" where
  "pieces [] = Some []"
| "pieces (TAtom a # TQuant q # TQuant q' # ts) = None"
| "pieces (TAtom a # TQuant q # ts) = map_option (Cons (a, q)) (pieces ts)"
| "pieces (TAtom a # ts) = map_option (Cons (a, One)) (pieces ts)"
| "pieces (TQuant q # ts) = None"

definition compilePrefix :: "string \<Rightarrow> rx_piece list option" where
  "compilePrefix src = (case tokens src of None \<Rightarrow> None | Some ts \<Rightarrow> pieces ts)"

fun atomMatches :: "rx_atom \<Rightarrow> char \<Rightarrow> bool" where
  "atomMatches (Lit d) c = (c = d)"
| "atomMatches AnyChar c = (\<not> isLineTerminator c)"
| "atomMatches Digit c = isDigit c"

text \<open>
  Backtracking is modelled by the list of the remainders a pattern can leave, in the
  order in which the matcher tries them (a greedy quantifier tries the longest run first).
\<close>

fun repeatRests :: "rx_atom \<Rightarrow> string \<Rightarrow> string list" where
  "repeatRests a [] = [[]]"
| "repeatRests a (c # cs) = (if atomMatches a c then repeatRests a cs @ [c # cs] else [c # cs])"

fun pieceRests :: "rx_piece \<Rightarrow> string \<Rightarrow> string list" where
  "pieceRests (a, One) s = (case s of [] \<Rightarrow> [] | c # cs \<Rightarrow> if atomMatches a c then [cs] else [])"
| "pieceRests (a, Star) s = repeatRests a s"
| "pieceRests (a, Plus) s =
     (case s of [] \<Rightarrow> [] | c # cs \<Rightarrow> if atomMatches a c then repeatRests a cs else [])"
| "pieceRests (a, Opt) s =
     (case s of [] \<Rightarrow> [[]] | c # cs \<Rightarrow> if atomMatches a c then [cs, c # cs] else [c # cs])"

fun seqRests :: "rx_piece list \<Rightarrow> string \<Rightarrow> string list" where
  "seqRests [] s = [s]"
| "seqRests (p # ps) s = concat (map (seqRests ps) (pieceRests p s))"

text \<open>The group \<open>([0-9]+\.[0-9]+\.[0-9]+)\<close>, and the test that it matches up to \<open>$\<close>.\<close>

definition versionGroup :: "rx_piece list" where
  "versionGroup = [(Digit, Plus), (Lit CHR ''.'', One), (Digit, Plus), (Lit CHR ''.'', One), (Digit, Plus)]"

definition matchesVersionToEnd :: "string \<Rightarrow> bool" where
  "matchesVersionToEnd r = ([] \<in> set (seqRests versionGroup r))"

text \<open>
  \<open>branchName.match(versionRegex)\<close>: the first way of matching the prefix after which the
  group matches the whole remainder; \<open>match[1]\<close> is then that remainder.
\<close>

definition extractVersionFromBranch :: "string \<Rightarrow> string \<Rightarrow> error + string" where
  "extractVersionFromBranch branchName releasePrefix =
     (case compilePrefix (replaceFirstSlash releasePrefix [backslash, CHR ''/'']) of
        None \<Rightarrow> Inl PatternNotModelled
      | Some ps \<Rightarrow>
          (case find matchesVersionToEnd (seqRests ps branchName) of
             None \<Rightarrow> Inl (ValidationError branchName)
           | Some v \<Rightarrow> Inr v))"

subsection \<open>\<open>updateMtaYamlVersion\<close>\<close>

text \<open>
  \<open>content.replace(/^version:\s*.*/gm, `version: ${version}`)\<close>.  With the flag \<open>m\<close> the
  anchor \<open>^\<close> holds at the start of the text and after every line terminator; with the
  flag \<open>g\<close> every match is replaced, the search resuming where the last match ended.
  \<open>\s*\<close> and \<open>.*\<close> are greedy and nothing follows them, so each takes its longest run.
\<close>

definition matchLength :: "string \<Rightarrow> nat" where
  "matchLength s =
     (let r = drop 8 s;
          ws = takeWhile isWhiteSpace r;
          r' = dropWhile isWhiteSpace r;
          body = takeWhile (\<lambda>c. \<not> isLineTerminator c) r'
      in 8 + length ws + length body)"

definition atLineStart :: "string \<Rightarrow> bool" where
  "atLineStart preceding = (preceding = [] \<or> isLineTerminator (last preceding))"

text \<open>
  The replacement text is a template: \<open>$$\<close> stands for \<open>$\<close>, \<open>$&\<close> for the matched
  text, \<open>$`\<close> for the text before the match and \<open>$'\<close> for the text after it.  The pattern
  has no group, so \<open>$1\<close> and the like stay as they are.
\<close>

fun getSubstitution :: "string \<Rightarrow> string \<Rightarrow> string \<Rightarrow> string \<Rightarrow> string" where
  "getSubstitution [] matched preceding following = []"
| "getSubstitution [c] matched preceding following = [c]"
| "getSubstitution (c # d # ds) matched preceding following =
     (if c = CHR ''$'' then
        (if d = CHR ''$'' then CHR ''$'' # getSubstitution ds matched preceding following
         else if d = CHR ''&'' then matched @ getSubstitution ds matched preceding following
         else if d = CHR 0x60 then preceding @ getSubstitution ds matched preceding following
         else if d = CHR 0x27 then following @ getSubstitution ds matched preceding following
         else c # getSubstitution (d # ds) matched preceding following)
      else c # getSubstitution (d # ds) matched preceding following)"

function replaceVersionLines :: "string \<Rightarrow> string \<Rightarrow> string \<Rightarrow> string" where
  "replaceVersionLines template preceding [] = []"
| "replaceVersionLines template preceding (c # cs) =
     (if atLineStart preceding \<and> startsWith (c # cs) ''version:'' then
        (let n = matchLength (c # cs);
             matched = take n (c # cs);
             following = drop n (c # cs)
         in getSubstitution template matched preceding following
            @ replaceVersionLines template (preceding @ matched) following)
      else c # replaceVersionLines template (preceding @ [c]) cs)"
  by pat_completeness auto
termination
  by (relation "measure (\<lambda>(t, b, s). length s)") (auto simp: matchLength_def Let_def)

definition updateMtaYamlVersion :: "string \<Rightarrow> string \<Rightarrow> string" where
  "updateMtaYamlVersion content version = replaceVersionLines (''version: '' @ version) [] content"

section \<open>The changelog splice\<close>

text \<open>\<open>lines.findIndex((line, index) => ...)\<close>: the first index that satisfies the test, else -1.\<close>

fun findIndexFrom :: "(string \<Rightarrow> nat \<Rightarrow> bool) \<Rightarrow> nat \<Rightarrow> string list \<Rightarrow> int" where
  "findIndexFrom P i [] = - 1"
| "findIndexFrom P i (l # ls) = (if P l i then int i else findIndexFrom P (Suc i) ls)"

definition findIndex :: "(string \<Rightarrow> nat \<Rightarrow> bool) \<Rightarrow> string list \<Rightarrow> int" where
  "findIndex P ls = findIndexFrom P 0 ls"

definition endsHeader :: "string \<Rightarrow> nat \<Rightarrow> bool" where
  "endsHeader line index = (index > 0 \<and> trim line \<noteq> [] \<and> \<not> startsWith line ''#'')"

definition standardHeader :: string where
  "standardHeader =
     ''# Changelog'' @ [newline, newline]
     @ ''All notable changes to this project will be documented in this file.'' @ [newline, newline]"

text \<open>
  The part of \<open>createOrUpdateChangelog\<close> that computes the new text of the changelog from
  the existing one (empty when there is no file) and the new entry.
\<close>

definition spliceChangelog :: "string \<Rightarrow> string \<Rightarrow> string" where
  "spliceChangelog existingContent newEntry =
     (if str_includes existingContent ''# Changelog'' then
        (let lines = split_nl existingContent;
             headerEndIndex = findIndex endsHeader lines;
             k = nat (if headerEndIndex > 0 then headerEndIndex else 4);
             header = join_nl (take k lines);
             existingEntries = join_nl (drop k lines)
         in header @ [newline, newline] @ newEntry @ existingEntries)
      else standardHeader @ newEntry @ existingContent)"

section \<open>The gateway and the local toolchain\<close>

text \<open>
  The release handler reaches the hosting platform, the file system and the shell only
  through calls whose outcome the handler does not control.  They are the fields of an
  environment over a world \<open>'w\<close> that the handler never inspects: each call takes the
  world, returns a reply (or the message of the error it throws) and the world it leaves.
  \<open>path.join\<close>, \<open>path.basename\<close> and the two uses of \<open>JSON.parse\<close> are library
  functions; they are taken as parameters as well: \<open>jsonName text\<close> is the \<open>name\<close> of the
  parsed manifest (\<open>None\<close> when parsing throws, \<open>Some None\<close> when there is no name), and
  \<open>jsonSetVersion text version\<close> is the manifest serialised again with its version set
  (\<open>None\<close> when parsing throws).
\<close>

record pull_summary =
  pr_number :: nat
  pr_title :: string
  pr_body :: "string option"
  pr_html_url :: string

record pull_detail =
  pd_title :: string
  pd_body :: "string option"
  pd_changed_files :: nat
  pd_commits :: nat

record pr_info =
  body :: string
  url :: string

record 'w environment =
  inputPrefixes :: prefixes
  repoOwner :: string
  repoName :: string
  cwd :: string
  pathJoin :: "string list \<Rightarrow> string"
  pathBasename :: "string \<Rightarrow> string"
  jsonName :: "string \<Rightarrow> string option option"
  jsonSetVersion :: "string \<Rightarrow> string \<Rightarrow> string option"
  gh_getBranches :: "'w \<Rightarrow> (string + branches) \<times> 'w"
  gh_merge :: "string \<Rightarrow> string \<Rightarrow> 'w \<Rightarrow> (string + string) \<times> 'w"
  gh_delete :: "string \<Rightarrow> 'w \<Rightarrow> (string + unit) \<times> 'w"
  gh_createTag :: "string \<Rightarrow> string \<Rightarrow> 'w \<Rightarrow> (string + unit) \<times> 'w"
  gh_getFileContent :: "string \<Rightarrow> string \<Rightarrow> 'w \<Rightarrow> (string + string) \<times> 'w"
  gh_updateFile ::
    "string \<Rightarrow> string \<Rightarrow> string \<Rightarrow> string \<Rightarrow> string \<Rightarrow> 'w \<Rightarrow> (string + unit) \<times> 'w"
  repos_getContent :: "string \<Rightarrow> string \<Rightarrow> 'w \<Rightarrow> (string + string) \<times> 'w"
  pulls_list :: "string \<Rightarrow> 'w \<Rightarrow> (string + pull_summary list) \<times> 'w"
  pulls_get :: "nat \<Rightarrow> 'w \<Rightarrow> (string + pull_detail) \<times> 'w"
  repos_createRelease :: "string \<Rightarrow> string \<Rightarrow> string \<Rightarrow> 'w \<Rightarrow> (string + nat) \<times> 'w"
  repos_uploadReleaseAsset :: "nat \<Rightarrow> string \<Rightarrow> string \<Rightarrow> 'w \<Rightarrow> (string + unit) \<times> 'w"
  fs_existsSync :: "string \<Rightarrow> 'w \<Rightarrow> bool \<times> 'w"
  fs_readFileSync :: "string \<Rightarrow> 'w \<Rightarrow> (string + string) \<times> 'w"
  fs_readdirSync :: "string \<Rightarrow> 'w \<Rightarrow> (string + string list) \<times> 'w"
  fs_renameSync :: "string \<Rightarrow> string \<Rightarrow> 'w \<Rightarrow> (string + unit) \<times> 'w"
  fs_writeFileSync :: "string \<Rightarrow> string \<Rightarrow> 'w \<Rightarrow> (string + unit) \<times> 'w"
  execSync :: "string \<Rightarrow> 'w \<Rightarrow> (string + unit) \<times> 'w"

text \<open>Every call made is recorded, with its arguments, in the order of the calls.\<close>

datatype event =
    GetBranches
  | Merge string string
  | Delete string
  | CreateTag string string
  | GetFileContent string string
  | UpdateFile string string string string string
  | GetContent string string
  | PullsList string
  | PullsGet nat
  | CreateRelease string string string
  | UploadReleaseAsset nat string string
  | ExistsSync string
  | ReadFileSync string
  | ReaddirSync string
  | RenameSync string string
  | WriteFileSync string string
  | ExecSync string

text \<open>
  The state of a run: the world, the calls made so far, and the handler's field
  \<open>releaseFilePath\<close>.
\<close>

record 'w state =
  world :: 'w
  trace :: "event list"
  releaseFilePath :: string

type_synonym ('w, 'a) action = "'w state \<Rightarrow> (error + 'a) \<times> 'w state"

text \<open>
  Sequencing with exceptions.  \<open>bindR\<close> is \<open>await\<close> followed by the rest of the block: a
  thrown error skips the rest.  \<open>tryCatch\<close> is \<open>try { ... } catch (error) { ... }\<close>.  The
  calls of \<open>core.info\<close> only write to the log of the action and are left out, so a
  \<open>catch\<close> block that logs and rethrows is \<open>tryCatch m throwR\<close> and one that only logs is
  \<open>tryCatch m (\<lambda>error. returnR ())\<close>.
\<close>

definition returnR :: "'a \<Rightarrow> ('w, 'a) action" where
  "returnR a s = (Inr a, s)"

definition throwR :: "error \<Rightarrow> ('w, 'a) action" where
  "throwR e s = (Inl e, s)"

definition bindR :: "('w, 'a) action \<Rightarrow> ('a \<Rightarrow> ('w, 'b) action) \<Rightarrow> ('w, 'b) action" where
  "bindR m f s = (case m s of (Inl e, s') \<Rightarrow> (Inl e, s') | (Inr a, s') \<Rightarrow> f a s')"

definition tryCatch :: "('w, 'a) action \<Rightarrow> (error \<Rightarrow> ('w, 'a) action) \<Rightarrow> ('w, 'a) action" where
  "tryCatch m h s = (case m s of (Inl e, s') \<Rightarrow> h e s' | (Inr a, s') \<Rightarrow> (Inr a, s'))"

definition liftE :: "error + 'a \<Rightarrow> ('w, 'a) action" where
  "liftE r s = (r, s)"

definition perform :: "event \<Rightarrow> ('w \<Rightarrow> (string + 'a) \<times> 'w) \<Rightarrow> ('w, 'a) action" where
  "perform ev f s =
     (case f (world s) of
        (Inl msg, w') \<Rightarrow> (Inl (Thrown msg), s\<lparr>world := w', trace := trace s @ [ev]\<rparr>)
      | (Inr a, w') \<Rightarrow> (Inr a, s\<lparr>world := w', trace := trace s @ [ev]\<rparr>))"

definition observe :: "event \<Rightarrow> ('w \<Rightarrow> 'a \<times> 'w) \<Rightarrow> ('w, 'a) action" where
  "observe ev f s =
     (case f (world s) of (a, w') \<Rightarrow> (Inr a, s\<lparr>world := w', trace := trace s @ [ev]\<rparr>))"

definition getBranches :: "'w environment \<Rightarrow> ('w, branches) action" where
  "getBranches env = perform GetBranches (gh_getBranches env)"

definition merge :: "'w environment \<Rightarrow> string \<Rightarrow> string \<Rightarrow> ('w, string) action" where
  "merge env fromBranch toBranch = perform (Merge fromBranch toBranch) (gh_merge env fromBranch toBranch)"

definition delete :: "'w environment \<Rightarrow> string \<Rightarrow> ('w, unit) action" where
  "delete env currentBranch = perform (Delete currentBranch) (gh_delete env currentBranch)"

definition githubCreateTag :: "'w environment \<Rightarrow> string \<Rightarrow> string \<Rightarrow> ('w, unit) action" where
  "githubCreateTag env tagName sha = perform (CreateTag tagName sha) (gh_createTag env tagName sha)"

definition getFileContent :: "'w environment \<Rightarrow> string \<Rightarrow> string \<Rightarrow> ('w, string) action" where
  "getFileContent env filePath branch =
     perform (GetFileContent filePath branch) (gh_getFileContent env filePath branch)"

definition updateFile ::
  "'w environment \<Rightarrow> string \<Rightarrow> string \<Rightarrow> string \<Rightarrow> string \<Rightarrow> string \<Rightarrow> ('w, unit) action" where
  "updateFile env filePath content message branch sha =
     perform (UpdateFile filePath content message branch sha)
       (gh_updateFile env filePath content message branch sha)"

definition getFileSha :: "'w environment \<Rightarrow> string \<Rightarrow> string \<Rightarrow> ('w, string) action" where
  "getFileSha env filePath branch =
     perform (GetContent filePath branch) (repos_getContent env filePath branch)"

definition pullsList :: "'w environment \<Rightarrow> string \<Rightarrow> ('w, pull_summary list) action" where
  "pullsList env head = perform (PullsList head) (pulls_list env head)"

definition pullsGet :: "'w environment \<Rightarrow> nat \<Rightarrow> ('w, pull_detail) action" where
  "pullsGet env pull_number = perform (PullsGet pull_number) (pulls_get env pull_number)"

definition createRelease :: "'w environment \<Rightarrow> string \<Rightarrow> string \<Rightarrow> string \<Rightarrow> ('w, nat) action" where
  "createRelease env tag_name name text =
     perform (CreateRelease tag_name name text) (repos_createRelease env tag_name name text)"

definition uploadReleaseAsset :: "'w environment \<Rightarrow> nat \<Rightarrow> string \<Rightarrow> string \<Rightarrow> ('w, unit) action" where
  "uploadReleaseAsset env release_id name bytes =
     perform (UploadReleaseAsset release_id name bytes) (repos_uploadReleaseAsset env release_id name bytes)"

definition existsSync :: "'w environment \<Rightarrow> string \<Rightarrow> ('w, bool) action" where
  "existsSync env path = observe (ExistsSync path) (fs_existsSync env path)"

definition readFileSync :: "'w environment \<Rightarrow> string \<Rightarrow> ('w, string) action" where
  "readFileSync env path = perform (ReadFileSync path) (fs_readFileSync env path)"

definition readdirSync :: "'w environment \<Rightarrow> string \<Rightarrow> ('w, string list) action" where
  "readdirSync env path = perform (ReaddirSync path) (fs_readdirSync env path)"

definition renameSync :: "'w environment \<Rightarrow> string \<Rightarrow> string \<Rightarrow> ('w, unit) action" where
  "renameSync env oldPath newPath = perform (RenameSync oldPath newPath) (fs_renameSync env oldPath newPath)"

definition writeFileSync :: "'w environment \<Rightarrow> string \<Rightarrow> string \<Rightarrow> ('w, unit) action" where
  "writeFileSync env path content = perform (WriteFileSync path content) (fs_writeFileSync env path content)"

definition exec :: "'w environment \<Rightarrow> string \<Rightarrow> ('w, unit) action" where
  "exec env command = perform (ExecSync command) (execSync env command)"

section \<open>The release handler\<close>

subsection \<open>Texts\<close>

text \<open>
  The fixed texts of the handler, line by line.  Their pictograms are written as the bytes
  of their UTF-8 encoding.
\<close>

function showNat :: "nat \<Rightarrow> string" where
  "showNat n = (if n < 10 then [char_of (48 + n)] else showNat (n div 10) @ [char_of (48 + n mod 10)])"
  by pat_completeness auto
termination
  by (relation "measure id") auto

definition magnifier :: string where
  "magnifier = [CHR 0xF0, CHR 0x9F, CHR 0x94, CHR 0x8E]"

definition rocket :: string where
  "rocket = [CHR 0xF0, CHR 0x9F, CHR 0x9A, CHR 0x80]"

definition package :: string where
  "package = [CHR 0xF0, CHR 0x9F, CHR 0x93, CHR 0xA6]"

definition wrench :: string where
  "wrench = [CHR 0xF0, CHR 0x9F, CHR 0x94, CHR 0xA7]"

definition orElse :: "string \<Rightarrow> string \<Rightarrow> string" where
  "orElse a b = (if a = [] then b else a)"

definition seePR :: "pr_info \<Rightarrow> string" where
  "seePR prInfo = (if url prInfo \<noteq> [] then ''['' @ magnifier @ '' See PR]('' @ url prInfo @ '')'' else [])"

definition changelogEntry :: "string \<Rightarrow> pr_info \<Rightarrow> string" where
  "changelogEntry version prInfo =
     join_nl
       [''# V'' @ version,
        [],
        ''This release includes:'',
        [],
        orElse (body prInfo) ''Release updates and improvements'',
        [],
        seePR prInfo,
        [],
        ''---'',
        [],
        []]"

definition releaseNotes :: "'w environment \<Rightarrow> string \<Rightarrow> string \<Rightarrow> pr_info \<Rightarrow> string" where
  "releaseNotes env version projectName prInfo =
     join_nl
       [''## '' @ rocket @ '' New Release v'' @ version,
        [],
        ''This release includes:'',
        [],
        orElse (body prInfo) ''Release updates and improvements'',
        [],
        ''## '' @ package @ '' Assets'',
        [],
        ''- '' @ [CHR 0x60] @ projectName @ ''-v'' @ version @ ''.mtar'' @ [CHR 0x60]
          @ '' - Complete package ready for deployment'',
        ''- '' @ [CHR 0x60] @ projectName @ ''-v'' @ version @ ''.zip'' @ [CHR 0x60]
          @ '' - Complete package ready for use'',
        [],
        ''## '' @ wrench @ '' Usage'',
        [],
        ''You can use this action in your workflows:'',
        [],
        [CHR 0x60, CHR 0x60, CHR 0x60] @ ''yaml'',
        ''- name: Run Git Flow'',
        ''  uses: '' @ repoOwner env @ ''/'' @ repoName env @ ''@v'' @ version,
        ''  with:'',
        ''    github_token: ${{ secrets.GITHUB_TOKEN }}'',
        ''    master_branch: '' @ [CHR 0x27] @ ''main'' @ [CHR 0x27],
        ''    development_branch: '' @ [CHR 0x27] @ ''development'' @ [CHR 0x27],
        [CHR 0x60, CHR 0x60, CHR 0x60],
        [],
        seePR prInfo]"

text \<open>The description of a pull request (\<open>enhancedBody\<close> in \<open>getPRInfo\<close>).\<close>

definition enhancedBody :: "pull_summary \<Rightarrow> pull_detail \<Rightarrow> string" where
  "enhancedBody pr detailedPr =
     (let described =
            orElse (case pd_body detailedPr of None \<Rightarrow> [] | Some b \<Rightarrow> b)
              (orElse (case pr_body pr of None \<Rightarrow> [] | Some b \<Rightarrow> b) [])
      in if trim described = [] then
           (let title = orElse (pd_title detailedPr) (pr_title pr);
                changedFiles =
                  (if pd_changed_files detailedPr = 0 then ''Unknown''
                   else showNat (pd_changed_files detailedPr));
                commits =
                  (if pd_commits detailedPr = 0 then ''Multiple'' else showNat (pd_commits detailedPr))
            in join_nl
                 [''**'' @ title @ ''**'',
                  [],
                  ''This release includes changes from PR #'' @ showNat (pr_number pr) @ ''.'',
                  [],
                  ''**Changed files:** '' @ changedFiles @ '' files modified'',
                  ''**Commits:** '' @ commits @ '' commits included'',
                  [],
                  ''For detailed information, please check the pull request.''])
         else described)"

subsection \<open>Pull-request lookup\<close>

text \<open>\<open>branch.replace(/^release\//, '')\<close>.\<close>

definition stripReleaseSlash :: "string \<Rightarrow> string" where
  "stripReleaseSlash branch = (if startsWith branch ''release/'' then drop 8 branch else branch)"

definition branchFormats :: "'w environment \<Rightarrow> string \<Rightarrow> string list" where
  "branchFormats env branch = [branch, stripReleaseSlash branch, repoOwner env @ '':'' @ branch]"

text \<open>
  One turn of the loop over the formats: \<open>Some\<close> is the \<open>return\<close> inside the loop,
  \<open>None\<close> falls through to the next format (no pull request listed, or the \<open>catch\<close> with
  its \<open>continue\<close>).
\<close>

definition searchFormat :: "'w environment \<Rightarrow> string \<Rightarrow> ('w, pr_info option) action" where
  "searchFormat env branchFormat =
     tryCatch
       (bindR (pullsList env branchFormat) (\<lambda>prs.
          if length prs > 0 then
            (let pr = hd prs in
             bindR (pullsGet env (pr_number pr)) (\<lambda>detailedPr.
               returnR (Some \<lparr>body = enhancedBody pr detailedPr, url = pr_html_url pr\<rparr>)))
          else returnR None))
       (\<lambda>error. returnR None)"

fun searchFormats :: "'w environment \<Rightarrow> string list \<Rightarrow> ('w, pr_info option) action" where
  "searchFormats env [] = returnR None"
| "searchFormats env (branchFormat # rest) =
     bindR (searchFormat env branchFormat) (\<lambda>found.
       case found of Some prInfo \<Rightarrow> returnR (Some prInfo) | None \<Rightarrow> searchFormats env rest)"

definition getPRInfo :: "'w environment \<Rightarrow> string \<Rightarrow> ('w, pr_info) action" where
  "getPRInfo env branch =
     bindR (searchFormats env (branchFormats env branch)) (\<lambda>found.
       case found of
         Some prInfo \<Rightarrow> returnR prInfo
       | None \<Rightarrow> throwR (NotFoundError branch))"

subsection \<open>Version files\<close>

definition updatePackageJsonVersion :: "'w environment \<Rightarrow> string \<Rightarrow> string \<Rightarrow> error + string" where
  "updatePackageJsonVersion env content version =
     (case jsonSetVersion env content version of None \<Rightarrow> Inl FormatError | Some updated \<Rightarrow> Inr updated)"

definition updatePackageJson :: "'w environment \<Rightarrow> string \<Rightarrow> string \<Rightarrow> ('w, unit) action" where
  "updatePackageJson env version branch =
     tryCatch
       (bindR (getFileContent env ''package.json'' branch) (\<lambda>content.
        bindR (liftE (updatePackageJsonVersion env content version)) (\<lambda>updatedContent.
        bindR (getFileSha env ''package.json'' branch) (\<lambda>fileResponse.
          updateFile env ''package.json'' updatedContent
            (''chore: update package.json version to '' @ version) branch fileResponse))))
       (\<lambda>error. throwR error)"

definition updateVersionFiles :: "'w environment \<Rightarrow> branches \<Rightarrow> prefixes \<Rightarrow> ('w, unit) action" where
  "updateVersionFiles env bs ps =
     tryCatch
       (bindR (liftE (extractVersionFromBranch (current bs) (release ps))) (\<lambda>version.
          updatePackageJson env version (current bs)))
       (\<lambda>error. throwR error)"

definition updateMtaYaml :: "'w environment \<Rightarrow> string \<Rightarrow> string \<Rightarrow> ('w, unit) action" where
  "updateMtaYaml env version branch =
     tryCatch
       (bindR (getFileContent env ''mta.yaml'' branch) (\<lambda>content.
        let updatedContent = updateMtaYamlVersion content version in
        bindR (getFileSha env ''mta.yaml'' branch) (\<lambda>fileResponse.
          updateFile env ''mta.yaml'' updatedContent
            (''chore: update mta.yaml version to '' @ version) branch fileResponse)))
       (\<lambda>error. returnR ())"

subsection \<open>Build\<close>

definition installDependencies :: "'w environment \<Rightarrow> ('w, unit) action" where
  "installDependencies env =
     bindR (existsSync env (pathJoin env [cwd env, ''package-lock.json''])) (\<lambda>packageLockExists.
     bindR (existsSync env (pathJoin env [cwd env, ''yarn.lock''])) (\<lambda>yarnLockExists.
       if packageLockExists then exec env ''npm ci''
       else if yarnLockExists then exec env ''yarn install --frozen-lockfile''
       else exec env ''npm install''))"

definition runBuild :: "'w environment \<Rightarrow> ('w, unit) action" where
  "runBuild env =
     bindR (existsSync env (pathJoin env [cwd env, ''yarn.lock''])) (\<lambda>yarnLockExists.
       if yarnLockExists then exec env ''yarn build'' else exec env ''npm run build'')"

definition setReleaseFilePath :: "string \<Rightarrow> ('w, unit) action" where
  "setReleaseFilePath path s = (Inr (), s\<lparr>releaseFilePath := path\<rparr>)"

definition getReleaseFilePath :: "('w, string) action" where
  "getReleaseFilePath s = (Inr (releaseFilePath s), s)"

text \<open>
  \<open>buildProject\<close> is written in four parts.  First the block for a project with
  \<open>mta.yaml\<close>; it returns \<open>mtarFilePath\<close>.
\<close>

definition processMtar :: "'w environment \<Rightarrow> string \<Rightarrow> string \<Rightarrow> branches \<Rightarrow> ('w, string) action" where
  "processMtar env version projectName bs =
     tryCatch
       (let mtarArchivesPath = pathJoin env [cwd env, ''mta_archives''] in
        bindR (existsSync env mtarArchivesPath) (\<lambda>archivesExist.
          if archivesExist then
            bindR (readdirSync env mtarArchivesPath) (\<lambda>files.
              let mtarFiles = filter (\<lambda>file. endsWith file ''.mtar'') files in
              if length mtarFiles > 0 then
                (let originalMtarFile = pathJoin env [mtarArchivesPath, hd mtarFiles];
                     versionedMtarFile =
                       pathJoin env [mtarArchivesPath, projectName @ ''-v'' @ version @ ''.mtar'']
                 in bindR (renameSync env originalMtarFile versionedMtarFile) (\<lambda>_.
                    bindR (updateMtaYaml env version (current bs)) (\<lambda>_.
                      returnR versionedMtarFile)))
              else
                throwR (BuildError
                  (''MTA project detected but no MTAR files found in mta_archives ''
                   @ ''directory. Build may have failed.'')))
          else
            throwR (BuildError
              (''MTA project detected but mta_archives directory not found. ''
               @ ''Build may have failed.''))))
       (\<lambda>error. throwR error)"

text \<open>
  The block for a project without \<open>mta.yaml\<close>, which leaves \<open>mtarFilePath\<close> empty, and
  the block that creates the standard package when \<open>mtarFilePath\<close> is empty.
\<close>

definition verifyStandardBuild :: "'w environment \<Rightarrow> ('w, string) action" where
  "verifyStandardBuild env =
     bindR (existsSync env (pathJoin env [cwd env, ''lib'', ''main'', ''index.js''])) (\<lambda>buildFileExists.
       if \<not> buildFileExists then
         throwR (BuildError ''Build files not found after build. Expected lib/main/index.js'')
       else returnR [])"

definition createStandardPackage :: "'w environment \<Rightarrow> string \<Rightarrow> string \<Rightarrow> ('w, string) action" where
  "createStandardPackage env version projectName =
     (let releaseFileName = projectName @ ''-v'' @ version @ ''.zip'';
          filesToPackage = ''lib/ action.yml package.json README.md LICENSE''
      in bindR (exec env (''zip -r '' @ releaseFileName @ '' '' @ filesToPackage)) (\<lambda>_.
           returnR releaseFileName))"

definition buildProject :: "'w environment \<Rightarrow> string \<Rightarrow> string \<Rightarrow> branches \<Rightarrow> ('w, unit) action" where
  "buildProject env version projectName bs =
     tryCatch
       (bindR (installDependencies env) (\<lambda>_.
        bindR (runBuild env) (\<lambda>_.
        bindR (existsSync env (pathJoin env [cwd env, ''mta.yaml''])) (\<lambda>mtaYamlExists.
        bindR (if mtaYamlExists then processMtar env version projectName bs
               else verifyStandardBuild env) (\<lambda>mtarFilePath.
        bindR (if mtarFilePath = [] then createStandardPackage env version projectName
               else returnR mtarFilePath) (\<lambda>mtarFilePath.
          setReleaseFilePath mtarFilePath))))))
       (\<lambda>error. throwR error)"

subsection \<open>Changelog\<close>

definition commitChangelog :: "'w environment \<Rightarrow> string \<Rightarrow> ('w, unit) action" where
  "commitChangelog env version =
     tryCatch
       (bindR (exec env (''git config user.name '' @ [CHR 0x22] @ ''GitHub Actions'' @ [CHR 0x22])) (\<lambda>_.
        bindR (exec env (''git config user.email '' @ [CHR 0x22] @ ''actions@github.com'' @ [CHR 0x22])) (\<lambda>_.
        bindR (exec env ''git add CHANGELOG.md'') (\<lambda>_.
          exec env (''git commit -m '' @ [CHR 0x22] @ ''docs: update changelog for version ''
                    @ version @ [CHR 0x22])))))
       (\<lambda>commitError. returnR ())"

definition createOrUpdateChangelog :: "'w environment \<Rightarrow> string \<Rightarrow> string \<Rightarrow> ('w, unit) action" where
  "createOrUpdateChangelog env version branch =
     tryCatch
       (let changelogPath = pathJoin env [cwd env, ''CHANGELOG.md''] in
        bindR (getPRInfo env branch) (\<lambda>prInfo.
        let newEntry = changelogEntry version prInfo in
        bindR (existsSync env changelogPath) (\<lambda>changelogExists.
        bindR (if changelogExists then readFileSync env changelogPath else returnR []) (\<lambda>existingContent.
        let newContent = spliceChangelog existingContent newEntry in
        bindR (writeFileSync env changelogPath newContent) (\<lambda>_.
        bindR (existsSync env ''.git'') (\<lambda>inRepository.
          if inRepository then commitChangelog env version else returnR ()))))))
       (\<lambda>error. returnR ())"

subsection \<open>Release publication\<close>

definition uploadAsset :: "'w environment \<Rightarrow> nat \<Rightarrow> ('w, unit) action" where
  "uploadAsset env release_id =
     bindR getReleaseFilePath (\<lambda>path.
     bindR (if path \<noteq> [] then existsSync env path else returnR False) (\<lambda>present.
       if present then
         bindR (readFileSync env path) (\<lambda>assetData.
           uploadReleaseAsset env release_id (pathBasename env path) assetData)
       else returnR ()))"

definition createGitHubRelease :: "'w environment \<Rightarrow> string \<Rightarrow> string \<Rightarrow> ('w, unit) action" where
  "createGitHubRelease env version projectName =
     tryCatch
       (bindR (getPRInfo env (''release/'' @ version)) (\<lambda>prInfo.
        bindR (createRelease env (''v'' @ version) (''Release v'' @ version)
                 (releaseNotes env version projectName prInfo)) (\<lambda>release_id.
          uploadAsset env release_id)))
       (\<lambda>error. throwR error)"

subsection \<open>The handler\<close>

definition Release_test :: "branches \<Rightarrow> prefixes \<Rightarrow> bool" where
  "Release_test bs ps = str_includes (current bs) (release ps)"

definition Release_merge :: "'w environment \<Rightarrow> branches \<Rightarrow> ('w, string) action" where
  "Release_merge env bs =
     bindR (merge env (current bs) (development bs)) (\<lambda>_.
     bindR (merge env (current bs) (main bs)) (\<lambda>sha.
       returnR sha))"

definition getTagName :: "string \<Rightarrow> string \<Rightarrow> string \<Rightarrow> string" where
  "getTagName currentBranch releasePrefix tagPrefix =
     (let branchName = removeAll releasePrefix currentBranch in tagPrefix @ branchName)"

definition createTag :: "'w environment \<Rightarrow> branches \<Rightarrow> prefixes \<Rightarrow> string \<Rightarrow> ('w, unit) action" where
  "createTag env bs ps sha =
     (let tagName = getTagName (current bs) (release ps) (tag ps) in githubCreateTag env tagName sha)"

definition projectNameOf :: "'w environment \<Rightarrow> ('w, string) action" where
  "projectNameOf env =
     (let packageJsonPath = pathJoin env [cwd env, ''package.json''] in
      bindR (existsSync env packageJsonPath) (\<lambda>packageJsonExists.
        if packageJsonExists then
          bindR (readFileSync env packageJsonPath) (\<lambda>text.
            case jsonName env text of
              None \<Rightarrow> throwR FormatError
            | Some name \<Rightarrow>
                returnR (orElse (case name of None \<Rightarrow> [] | Some n \<Rightarrow> n) ''unknown-project''))
        else returnR ''unknown-project''))"

definition handle :: "'w environment \<Rightarrow> ('w, string) action" where
  "handle env =
     bindR (getBranches env) (\<lambda>bs.
     let ps = inputPrefixes env in
     bindR (liftE (extractVersionFromBranch (current bs) (release ps))) (\<lambda>version.
     bindR (projectNameOf env) (\<lambda>projectName.
     bindR (updateVersionFiles env bs ps) (\<lambda>_.
     bindR (createOrUpdateChangelog env version (current bs)) (\<lambda>_.
     bindR (Release_merge env bs) (\<lambda>sha.
     bindR (createTag env bs ps sha) (\<lambda>_.
     bindR (buildProject env version projectName bs) (\<lambda>_.
     bindR (createGitHubRelease env version projectName) (\<lambda>_.
     bindR (delete env (current bs)) (\<lambda>_.
       returnR sha))))))))))"

section \<open>Runs and the calls they make\<close>

text \<open>The calls a run made between two of its states.\<close>

definition emitted :: "'w state \<Rightarrow> 'w state \<Rightarrow> event list" where
  "emitted s s' = drop (length (trace s)) (trace s')"

text \<open>
  \<open>emitsOnly P m\<close>: from any state, \<open>m\<close> only adds calls to the record, all of them
  satisfying \<open>P\<close>.
\<close>

definition emitsOnly :: "(event \<Rightarrow> bool) \<Rightarrow> ('w, 'a) action \<Rightarrow> bool" where
  "emitsOnly P m = (\<forall>s. \<exists>evs. trace (snd (m s)) = trace s @ evs \<and> list_all P evs)"

fun isMergeOrDelete :: "event \<Rightarrow> bool" where
  "isMergeOrDelete (Merge a b) = True"
| "isMergeOrDelete (Delete b) = True"
| "isMergeOrDelete e = False"


section \<open>Example environments\<close>

text \<open>
  A repository \<open>acme/tool\<close> checked out in \<open>/work\<close>, with the release branch
  \<open>release/1.2.0\<close>, one pull request for it, a \<open>package.json\<close> and a standard build.
  Every call succeeds.  The other environments change single replies of this one.
\<close>

definition joinPaths :: "string list \<Rightarrow> string" where
  "joinPaths parts = foldr (\<lambda>part rest. if rest = [] then part else part @ ''/'' @ rest) parts []"

definition demoPrefixes :: prefixes where
  "demoPrefixes =
     \<lparr>feature = ''feature/'', bugfix = ''bugfix/'', hotfix = ''hotfix/'', release = ''release/'',
      support = ''support/'', tag = ''v''\<rparr>"

definition demoBranches :: branches where
  "demoBranches =
     \<lparr>current = ''release/1.2.0'', target = ''main'', main = ''main'', development = ''develop''\<rparr>"

definition demoPull :: pull_summary where
  "demoPull = \<lparr>pr_number = 7, pr_title = ''Release 1.2.0'', pr_body = Some ''Fixes'', pr_html_url = ''https://example.org/pull/7''\<rparr>"

definition demoDetail :: pull_detail where
  "demoDetail = \<lparr>pd_title = ''Release 1.2.0'', pd_body = Some ''Fixes'', pd_changed_files = 3, pd_commits = 2\<rparr>"

definition demoEnv :: "unit environment" where
  "demoEnv =
     \<lparr>inputPrefixes = demoPrefixes,
      repoOwner = ''acme'',
      repoName = ''tool'',
      cwd = ''/work'',
      pathJoin = joinPaths,
      pathBasename = (\<lambda>path. path),
      jsonName = (\<lambda>text. Some (Some ''tool'')),
      jsonSetVersion = (\<lambda>text version. Some version),
      gh_getBranches = (\<lambda>w. (Inr demoBranches, w)),
      gh_merge = (\<lambda>fromBranch toBranch w. (Inr (''sha-'' @ toBranch), w)),
      gh_delete = (\<lambda>branch w. (Inr (), w)),
      gh_createTag = (\<lambda>tagName sha w. (Inr (), w)),
      gh_getFileContent = (\<lambda>path branch w. (Inr ''version: 0.0.1'', w)),
      gh_updateFile = (\<lambda>path content message branch sha w. (Inr (), w)),
      repos_getContent = (\<lambda>path branch w. (Inr ''blob'', w)),
      pulls_list = (\<lambda>head w. (Inr (if head = ''release/1.2.0'' then [demoPull] else []), w)),
      pulls_get = (\<lambda>number w. (Inr demoDetail, w)),
      repos_createRelease = (\<lambda>tag_name name text w. (Inr 1, w)),
      repos_uploadReleaseAsset = (\<lambda>release_id name bytes w. (Inr (), w)),
      fs_existsSync =
        (\<lambda>path w. (path = ''/work/package.json'' \<or> path = ''/work/lib/main/index.js'', w)),
      fs_readFileSync = (\<lambda>path w. (Inr ''text'', w)),
      fs_readdirSync = (\<lambda>path w. (Inr [], w)),
      fs_renameSync = (\<lambda>oldPath newPath w. (Inr (), w)),
      fs_writeFileSync = (\<lambda>path content w. (Inr (), w)),
      execSync = (\<lambda>command w. (Inr (), w))\<rparr>"

definition start :: "unit state" where
  "start = \<lparr>world = (), trace = [], releaseFilePath = []\<rparr>"

text \<open>The run starts on the branch \<open>release/abc\<close>.\<close>

definition badBranchEnv :: "unit environment" where
  "badBranchEnv =
     demoEnv\<lparr>gh_getBranches := (\<lambda>w. (Inr (demoBranches\<lparr>current := ''release/abc''\<rparr>), w))\<rparr>"

text \<open>The changelog cannot be written.\<close>

definition readOnlyEnv :: "unit environment" where
  "readOnlyEnv = demoEnv\<lparr>fs_writeFileSync := (\<lambda>path content w. (Inl ''EACCES'', w))\<rparr>"

text \<open>
  A project with \<open>mta.yaml\<close>; \<open>archives\<close> tells whether \<open>mta_archives\<close> exists, \<open>files\<close>
  is what it contains and \<open>renamed\<close> is the reply to the renaming.
\<close>

definition mtaEnv :: "bool \<Rightarrow> string list \<Rightarrow> string + unit \<Rightarrow> unit environment" where
  "mtaEnv archives files renamed =
     demoEnv
       \<lparr>fs_existsSync :=
          (\<lambda>path w. (path = ''/work/package.json'' \<or> path = ''/work/mta.yaml''
                      \<or> (archives \<and> path = ''/work/mta_archives'') , w)),
        fs_readdirSync := (\<lambda>path w. (Inr files, w)),
        fs_renameSync := (\<lambda>oldPath newPath w. (renamed, w))\<rparr>"

text \<open>The same project when \<open>mta.yaml\<close> cannot be read through the gateway.\<close>

definition mtaUnreadableEnv :: "unit environment" where
  "mtaUnreadableEnv =
     (mtaEnv True [''notes.txt'', ''app.mtar''] (Inr ()))
       \<lparr>gh_getFileContent :=
          (\<lambda>path branch w. (if path = ''mta.yaml'' then Inl ''Not Found'' else Inr ''{}'', w))\<rparr>"





text \<open>Calls other than a merge or the deletion of a branch.\<close>

abbreviation (input) quiet :: "event \<Rightarrow> bool" where
  "quiet \<equiv> (\<lambda>e. \<not> isMergeOrDelete e)"

text \<open>The steps of \<open>handle\<close> that follow the changelog step.\<close>

definition stepsAfterChangelog ::
  "'w environment \<Rightarrow> branches \<Rightarrow> prefixes \<Rightarrow> string \<Rightarrow> string \<Rightarrow> ('w, string) action" where
  "stepsAfterChangelog env bs ps version projectName =
     bindR (Release_merge env bs) (\<lambda>sha.
     bindR (createTag env bs ps sha) (\<lambda>_.
     bindR (buildProject env version projectName bs) (\<lambda>_.
     bindR (createGitHubRelease env version projectName) (\<lambda>_.
     bindR (delete env (current bs)) (\<lambda>_.
       returnR sha)))))"

text \<open>The archive directory of a project and the name its archive is given.\<close>

definition archivesPath :: "'w environment \<Rightarrow> string" where
  "archivesPath env = pathJoin env [cwd env, ''mta_archives'']"

definition versionedArchive :: "'w environment \<Rightarrow> string \<Rightarrow> string \<Rightarrow> string" where
  "versionedArchive env version projectName =
     pathJoin env [archivesPath env, projectName @ ''-v'' @ version @ ''.mtar'']"

definition isMtar :: "string \<Rightarrow> bool" where
  "isMtar file = endsWith file ''.mtar''"

text \<open>Two entries as \<open>createOrUpdateChangelog\<close> writes them.\<close>

definition previousEntry :: string where
  "previousEntry = changelogEntry ''1.0.0'' \<lparr>body = ''First release'', url = []\<rparr>"

definition nextEntry :: string where
  "nextEntry = changelogEntry ''1.1.0'' \<lparr>body = ''Second release'', url = []\<rparr>"


text \<open>What the descriptor patch is to do to one line.\<close>

definition patchLine :: "string \<Rightarrow> string \<Rightarrow> string" where
  "patchLine version l = (if startsWith l ''version:'' then ''version: '' @ version else l)"


text \<open>
  The lines of a text, each with the line terminator that ends it; the last line has
  none.  \<open>segmented\<close> holds of such a sequence: no line contains a line terminator, and
  every line but the last is followed by exactly one.
\<close>

fun lineSegments :: "string \<Rightarrow> (string \<times> string) list" where
  "lineSegments [] = [([], [])]"
| "lineSegments (c # cs) =
     (if isLineTerminator c then ([], [c]) # lineSegments cs
      else (case lineSegments cs of
              [] \<Rightarrow> [([c], [])]
            | (l, t) # segs \<Rightarrow> (c # l, t) # segs))"

fun segmented :: "(string \<times> string) list \<Rightarrow> bool" where
  "segmented [] = False"
| "segmented [(l, t)] = (list_all (\<lambda>c. \<not> isLineTerminator c) l \<and> t = [])"
| "segmented ((l, t) # seg # segs) =
     (list_all (\<lambda>c. \<not> isLineTerminator c) l \<and> length t = 1 \<and> list_all isLineTerminator t
      \<and> segmented (seg # segs))"

text \<open>
  A version literal \<open>X.Y.Z\<close> with three non-empty strings of decimal digits, and a prefix
  none of whose characters is a syntax character of the pattern language.
\<close>

definition isVersionLiteral :: "string \<Rightarrow> bool" where
  "isVersionLiteral v =
     (\<exists>x y z. x \<noteq> [] \<and> y \<noteq> [] \<and> z \<noteq> [] \<and> list_all isDigit x \<and> list_all isDigit y \<and> list_all isDigit z
        \<and> v = x @ ''.'' @ y @ ''.'' @ z)"

definition isPlainPrefix :: "string \<Rightarrow> bool" where
  "isPlainPrefix p = list_all (\<lambda>c. \<not> isSyntaxCharacter c) p"

text \<open>
  Calls on the descriptor \<open>mta.yaml\<close> through the gateway, and the renaming of a file.
  \<open>renameComesFirst m\<close>: \<open>m\<close> only adds calls to the record, and none on the descriptor
  before its first renaming.
\<close>

fun isDescriptorCall :: "event \<Rightarrow> bool" where
  "isDescriptorCall (GetFileContent filePath branch) = (filePath = ''mta.yaml'')"
| "isDescriptorCall (GetContent filePath branch) = (filePath = ''mta.yaml'')"
| "isDescriptorCall (UpdateFile filePath content message branch sha) = (filePath = ''mta.yaml'')"
| "isDescriptorCall e = False"

fun isRenameSync :: "event \<Rightarrow> bool" where
  "isRenameSync (RenameSync oldPath newPath) = True"
| "isRenameSync e = False"

definition renameComesFirst :: "('w, 'a) action \<Rightarrow> bool" where
  "renameComesFirst m =
     (\<forall>s. \<exists>evs. trace (snd (m s)) = trace s @ evs
        \<and> list_all (\<lambda>e. \<not> isDescriptorCall e) (takeWhile (\<lambda>e. \<not> isRenameSync e) evs))"




section \<open>Properties\<close>

lemma startsWith_iff: "startsWith s p \<longleftrightarrow> (\<exists>r. s = p @ r)"
  by (induction s p rule: startsWith.induct) auto

lemma includes_iff: "str_includes s sub \<longleftrightarrow> (\<exists>a b. s = a @ sub @ b)"
proof (induction s)
  case Nil
  then show ?case by auto
next
  case (Cons c cs)
  show ?case
  proof
    assume "str_includes (c # cs) sub"
    then consider "startsWith (c # cs) sub" | "str_includes cs sub" by auto
    then show "\<exists>a b. c # cs = a @ sub @ b"
    proof cases
      case 1
      then obtain r where "c # cs = sub @ r" by (auto simp: startsWith_iff)
      then have "c # cs = [] @ sub @ r" by simp
      then show ?thesis by blast
    next
      case 2
      then obtain a b where "cs = a @ sub @ b" using Cons.IH by blast
      then have "c # cs = (c # a) @ sub @ b" by simp
      then show ?thesis by blast
    qed
  next
    assume "\<exists>a b. c # cs = a @ sub @ b"
    then obtain a b where ab: "c # cs = a @ sub @ b" by blast
    show "str_includes (c # cs) sub"
    proof (cases a)
      case Nil
      with ab have "startsWith (c # cs) sub" by (auto simp: startsWith_iff)
      then show ?thesis by simp
    next
      case (Cons x a')
      with ab have "cs = a' @ sub @ b" by simp
      then have "str_includes cs sub" using Cons.IH by blast
      then show ?thesis by simp
    qed
  qed
qed

lemma Feature_test_iff:
  "Feature_test bs ps \<longleftrightarrow>
     (\<exists>a b. current bs = a @ feature ps @ b) \<and> (target bs = ''development'' \<or> target bs = ''quality'')"
  by (simp add: Feature_test_def includes_iff)

text \<open>
  C7.  The test compares the target branch with the fixed names \<open>development\<close> and
  \<open>quality\<close>, not with the development branch of the run.  With the development branch
  configured as \<open>develop\<close>, a feature branch whose pull request targets \<open>develop\<close> is
  rejected, and one that targets a branch called \<open>development\<close> is accepted although that
  is not the development branch.
\<close>

theorem Feature_test_ignores_development_branch:
  "\<not> Feature_test
       \<lparr>current = ''feature/login'', target = ''develop'', main = ''main'', development = ''develop''\<rparr>
       \<lparr>feature = ''feature/'', bugfix = ''bugfix/'', hotfix = ''hotfix/'', release = ''release/'',
        support = ''support/'', tag = ''v''\<rparr>
   \<and> Feature_test
       \<lparr>current = ''feature/login'', target = ''development'', main = ''main'', development = ''develop''\<rparr>
       \<lparr>feature = ''feature/'', bugfix = ''bugfix/'', hotfix = ''hotfix/'', release = ''release/'',
        support = ''support/'', tag = ''v''\<rparr>"
  by (simp add: Feature_test_def)

subsection \<open>Sequencing\<close>

lemma tryCatch_swallow: "fst (tryCatch m (\<lambda>error. returnR ()) s) = Inr ()"
  by (simp add: tryCatch_def returnR_def split: prod.splits sum.splits)

lemma bindR_Inr_iff:
  "bindR m f s = (Inr b, s') \<longleftrightarrow> (\<exists>a s1. m s = (Inr a, s1) \<and> f a s1 = (Inr b, s'))"
  by (auto simp: bindR_def split: prod.splits sum.splits)

lemma tryCatch_rethrow: "tryCatch m (\<lambda>error. throwR error) = m"
  by (rule ext) (simp add: tryCatch_def throwR_def split: prod.splits sum.splits)

subsection \<open>What each step may call\<close>

lemma emitsOnlyD:
  "emitsOnly P m \<Longrightarrow> m s = (r, s') \<Longrightarrow> \<exists>evs. trace s' = trace s @ evs \<and> list_all P evs"
  unfolding emitsOnly_def by (metis snd_conv)

lemma emitsOnly_returnR: "emitsOnly P (returnR a)"
  by (simp add: emitsOnly_def returnR_def)

lemma emitsOnly_throwR: "emitsOnly P (throwR e)"
  by (simp add: emitsOnly_def throwR_def)

lemma emitsOnly_liftE: "emitsOnly P (liftE r)"
  by (simp add: emitsOnly_def liftE_def)

lemma emitsOnly_setReleaseFilePath: "emitsOnly P (setReleaseFilePath p)"
  by (simp add: emitsOnly_def setReleaseFilePath_def)

lemma emitsOnly_getReleaseFilePath: "emitsOnly P getReleaseFilePath"
  by (simp add: emitsOnly_def getReleaseFilePath_def)

lemma emitsOnly_perform: "P ev \<Longrightarrow> emitsOnly P (perform ev f)"
  by (auto simp: emitsOnly_def perform_def split: prod.splits sum.splits)

lemma emitsOnly_observe: "P ev \<Longrightarrow> emitsOnly P (observe ev f)"
  by (auto simp: emitsOnly_def observe_def split: prod.splits)

lemma emitsOnly_bindR:
  assumes "emitsOnly P m" and "\<And>a. emitsOnly P (f a)"
  shows "emitsOnly P (bindR m f)"
  unfolding emitsOnly_def
proof
  fix s
  obtain r s1 where ms: "m s = (r, s1)" by (cases "m s")
  from emitsOnlyD[OF assms(1) ms] obtain evs1 where
    e1: "trace s1 = trace s @ evs1" "list_all P evs1" by blast
  show "\<exists>evs. trace (snd (bindR m f s)) = trace s @ evs \<and> list_all P evs"
  proof (cases r)
    case (Inl e)
    with ms e1 show ?thesis by (simp add: bindR_def)
  next
    case (Inr a)
    obtain r2 s2 where fs: "f a s1 = (r2, s2)" by (cases "f a s1")
    from emitsOnlyD[OF assms(2) fs] obtain evs2 where
      e2: "trace s2 = trace s1 @ evs2" "list_all P evs2" by blast
    from ms Inr fs have "snd (bindR m f s) = s2" by (simp add: bindR_def)
    moreover have "trace s2 = trace s @ (evs1 @ evs2)" using e1 e2 by simp
    moreover have "list_all P (evs1 @ evs2)" using e1 e2 by simp
    ultimately show ?thesis by metis
  qed
qed

lemma emitsOnly_tryCatch:
  assumes "emitsOnly P m" and "\<And>e. emitsOnly P (h e)"
  shows "emitsOnly P (tryCatch m h)"
  unfolding emitsOnly_def
proof
  fix s
  obtain r s1 where ms: "m s = (r, s1)" by (cases "m s")
  from emitsOnlyD[OF assms(1) ms] obtain evs1 where
    e1: "trace s1 = trace s @ evs1" "list_all P evs1" by blast
  show "\<exists>evs. trace (snd (tryCatch m h s)) = trace s @ evs \<and> list_all P evs"
  proof (cases r)
    case (Inr a)
    with ms e1 show ?thesis by (simp add: tryCatch_def)
  next
    case (Inl e)
    obtain r2 s2 where hs: "h e s1 = (r2, s2)" by (cases "h e s1")
    from emitsOnlyD[OF assms(2) hs] obtain evs2 where
      e2: "trace s2 = trace s1 @ evs2" "list_all P evs2" by blast
    from ms Inl hs have "snd (tryCatch m h s) = s2" by (simp add: tryCatch_def)
    moreover have "trace s2 = trace s @ (evs1 @ evs2)" using e1 e2 by simp
    moreover have "list_all P (evs1 @ evs2)" using e1 e2 by simp
    ultimately show ?thesis by metis
  qed
qed

lemma emitsOnly_if:
  "(c \<Longrightarrow> emitsOnly P a) \<Longrightarrow> (\<not> c \<Longrightarrow> emitsOnly P b) \<Longrightarrow> emitsOnly P (if c then a else b)"
  by simp

lemma emitsOnly_case_option:
  "emitsOnly P a \<Longrightarrow> (\<And>x. emitsOnly P (b x)) \<Longrightarrow> emitsOnly P (case v of None \<Rightarrow> a | Some x \<Rightarrow> b x)"
  by (cases v) simp_all

lemmas emitsOnly_intros =
  emitsOnly_returnR emitsOnly_throwR emitsOnly_liftE emitsOnly_setReleaseFilePath
  emitsOnly_getReleaseFilePath emitsOnly_bindR emitsOnly_tryCatch emitsOnly_if emitsOnly_case_option

lemmas call_defs =
  getBranches_def merge_def delete_def githubCreateTag_def getFileContent_def updateFile_def getFileSha_def
  pullsList_def pullsGet_def createRelease_def uploadReleaseAsset_def existsSync_def readFileSync_def
  readdirSync_def renameSync_def writeFileSync_def exec_def

lemma quiet_searchFormats: "emitsOnly quiet (searchFormats env fs)"
proof (induction fs)
  case Nil
  show ?case by (simp add: emitsOnly_returnR)
next
  case (Cons f fs)
  have "emitsOnly quiet (searchFormat env f)"
    unfolding searchFormat_def call_defs Let_def
    by (intro emitsOnly_intros emitsOnly_perform) simp_all
  with Cons show ?case
    by (auto intro!: emitsOnly_intros)
qed

lemma quiet_getPRInfo: "emitsOnly quiet (getPRInfo env b)"
  unfolding getPRInfo_def by (intro emitsOnly_intros quiet_searchFormats)

lemma quiet_changelog: "emitsOnly quiet (createOrUpdateChangelog env v b)"
  unfolding createOrUpdateChangelog_def commitChangelog_def call_defs Let_def
  by (intro emitsOnly_intros emitsOnly_perform emitsOnly_observe quiet_getPRInfo) simp_all

lemma quiet_projectNameOf: "emitsOnly quiet (projectNameOf env)"
  unfolding projectNameOf_def call_defs Let_def
  by (intro emitsOnly_intros emitsOnly_perform emitsOnly_observe) simp_all

lemma quiet_updateVersionFiles: "emitsOnly quiet (updateVersionFiles env bs ps)"
  unfolding updateVersionFiles_def updatePackageJson_def call_defs Let_def
  by (intro emitsOnly_intros emitsOnly_perform emitsOnly_observe) simp_all

lemma quiet_updateMtaYaml: "emitsOnly quiet (updateMtaYaml env v b)"
  unfolding updateMtaYaml_def call_defs Let_def
  by (intro emitsOnly_intros emitsOnly_perform emitsOnly_observe) simp_all

lemma quiet_buildProject: "emitsOnly quiet (buildProject env v pn bs)"
  unfolding buildProject_def installDependencies_def runBuild_def processMtar_def
    verifyStandardBuild_def createStandardPackage_def call_defs Let_def
  by (intro emitsOnly_intros emitsOnly_perform emitsOnly_observe quiet_updateMtaYaml) simp_all

lemma quiet_createGitHubRelease: "emitsOnly quiet (createGitHubRelease env v pn)"
  unfolding createGitHubRelease_def uploadAsset_def call_defs Let_def
  by (intro emitsOnly_intros emitsOnly_perform emitsOnly_observe quiet_getPRInfo) simp_all

lemma quiet_createTag: "emitsOnly quiet (createTag env bs ps sha)"
  unfolding createTag_def call_defs Let_def
  by (intro emitsOnly_intros emitsOnly_perform emitsOnly_observe) simp_all

lemma quiet_getBranches: "emitsOnly quiet (getBranches env)"
  unfolding call_defs by (intro emitsOnly_perform) simp

subsection \<open>Evaluation\<close>

lemmas run_defs = handle_def bindR_def tryCatch_def returnR_def throwR_def liftE_def perform_def observe_def
  call_defs projectNameOf_def updateVersionFiles_def updatePackageJson_def updatePackageJsonVersion_def
  createOrUpdateChangelog_def getPRInfo_def branchFormats_def searchFormat_def commitChangelog_def
  Release_merge_def createTag_def getTagName_def buildProject_def installDependencies_def runBuild_def
  processMtar_def verifyStandardBuild_def createStandardPackage_def setReleaseFilePath_def
  getReleaseFilePath_def createGitHubRelease_def uploadAsset_def updateMtaYaml_def stripReleaseSlash_def
  stepsAfterChangelog_def orElse_def Let_def

lemmas demo_defs = demoEnv_def demoBranches_def demoPrefixes_def demoPull_def demoDetail_def start_def
  joinPaths_def

lemmas rx_eval = extractVersionFromBranch_def compilePrefix_def backslash_def isSyntaxCharacter_def
  matchesVersionToEnd_def versionGroup_def isDigit_def isLineTerminator_def

lemma filter_quiet: "list_all quiet evs \<Longrightarrow> filter isMergeOrDelete evs = []"
  by (induction evs) auto

lemma perform_trace: "perform ev f s = (r, s') \<Longrightarrow> trace s' = trace s @ [ev]"
  by (auto simp: perform_def split: prod.splits sum.splits)

subsection \<open>The build step\<close>

lemma never_throws_pair: "fst (m s) = Inr () \<Longrightarrow> m s = (Inr (), snd (m s))"
  by (metis prod.collapse)

lemma updateMtaYaml_returns: "updateMtaYaml env version branch s = (Inr (), snd (updateMtaYaml env version branch s))"
  unfolding updateMtaYaml_def by (rule never_throws_pair) (rule tryCatch_swallow)

lemma buildProject_archive:
  assumes "installDependencies env s = (Inr (), s1)"
    and "runBuild env s1 = (Inr (), s2)"
    and "existsSync env (pathJoin env [cwd env, ''mta.yaml'']) s2 = (Inr True, s3)"
  shows "buildProject env version projectName bs s =
           bindR (processMtar env version projectName bs) (\<lambda>mtarFilePath.
             bindR (if mtarFilePath = [] then createStandardPackage env version projectName
                    else returnR mtarFilePath) setReleaseFilePath) s3"
  using assms by (simp add: buildProject_def tryCatch_rethrow bindR_def)

lemma processMtar_no_directory:
  assumes "existsSync env (archivesPath env) s3 = (Inr False, s4)"
  shows "\<exists>msg. processMtar env version projectName bs s3 = (Inl (BuildError msg), s4)"
  using assms by (simp add: processMtar_def tryCatch_rethrow bindR_def throwR_def archivesPath_def Let_def)

lemma processMtar_no_archive:
  assumes "existsSync env (archivesPath env) s3 = (Inr True, s4)"
    and "readdirSync env (archivesPath env) s4 = (Inr files, s5)"
    and "filter isMtar files = []"
  shows "\<exists>msg. processMtar env version projectName bs s3 = (Inl (BuildError msg), s5)"
  using assms
  by (simp add: processMtar_def tryCatch_rethrow bindR_def throwR_def archivesPath_def isMtar_def[abs_def] Let_def)

lemma processMtar_rename_fails:
  assumes "existsSync env (archivesPath env) s3 = (Inr True, s4)"
    and "readdirSync env (archivesPath env) s4 = (Inr files, s5)"
    and "filter isMtar files = f # fs"
    and "renameSync env (pathJoin env [archivesPath env, f]) (versionedArchive env version projectName) s5 = (Inl e, s6)"
  shows "processMtar env version projectName bs s3 = (Inl e, s6)"
  using assms
  by (simp add: processMtar_def tryCatch_rethrow bindR_def throwR_def archivesPath_def
      versionedArchive_def isMtar_def[abs_def] Let_def)

lemma updateMtaYaml_obtain:
  obtains s7 where "updateMtaYaml env version branch s = (Inr (), s7)"
  using updateMtaYaml_returns by blast

lemma processMtar_renamed:
  assumes "existsSync env (archivesPath env) s3 = (Inr True, s4)"
    and "readdirSync env (archivesPath env) s4 = (Inr files, s5)"
    and "filter isMtar files = f # fs"
    and "renameSync env (pathJoin env [archivesPath env, f]) (versionedArchive env version projectName) s5 = (Inr (), s6)"
  shows "processMtar env version projectName bs s3 =
           (Inr (versionedArchive env version projectName), snd (updateMtaYaml env version (current bs) s6))"
proof -
  obtain s7 where "updateMtaYaml env version (current bs) s6 = (Inr (), s7)"
    by (rule updateMtaYaml_obtain)
  with assms show ?thesis
    by (simp add: processMtar_def tryCatch_rethrow bindR_def throwR_def returnR_def archivesPath_def
        versionedArchive_def isMtar_def[abs_def] Let_def)
qed

lemma stepsAfterChangelog_build_fails:
  "Release_merge env bs t = (Inr sha, t1) \<Longrightarrow> createTag env bs ps sha t1 = (Inr (), t2) \<Longrightarrow>
   buildProject env version projectName bs t2 = (Inl e, t3) \<Longrightarrow>
   stepsAfterChangelog env bs ps version projectName t = (Inl e, t3)"
  by (simp add: stepsAfterChangelog_def bindR_def)

lemmas mta_defs = mtaEnv_def archivesPath_def versionedArchive_def isMtar_def endsWith_def

subsection \<open>The descriptor update\<close>

lemma updateMtaYaml_read_fails:
  "getFileContent env ''mta.yaml'' branch t = (Inl e, t1) \<Longrightarrow>
   updateMtaYaml env version branch t = (Inr (), t1)"
  by (simp add: updateMtaYaml_def tryCatch_def bindR_def returnR_def)

lemma updateMtaYaml_sha_fails:
  "getFileContent env ''mta.yaml'' branch t = (Inr content, t1) \<Longrightarrow>
   getFileSha env ''mta.yaml'' branch t1 = (Inl e, t2) \<Longrightarrow>
   updateMtaYaml env version branch t = (Inr (), t2)"
  by (simp add: updateMtaYaml_def tryCatch_def bindR_def returnR_def Let_def)

lemma updateMtaYaml_commit:
  "getFileContent env ''mta.yaml'' branch t = (Inr content, t1) \<Longrightarrow>
   getFileSha env ''mta.yaml'' branch t1 = (Inr sha, t2) \<Longrightarrow>
   updateFile env ''mta.yaml'' (updateMtaYamlVersion content version)
     (''chore: update mta.yaml version to '' @ version) branch sha t2 = (r, t3) \<Longrightarrow>
   updateMtaYaml env version branch t = (Inr (), t3)"
  by (cases r) (simp_all add: updateMtaYaml_def tryCatch_def bindR_def returnR_def Let_def)

text \<open>
  C10.  \<open>updateMtaYaml\<close> never throws: when reading \<open>mta.yaml\<close>, fetching its hash or
  committing the patched text fails, it returns normally in the state the failed call
  left.  After a successful renaming of the archive, \<open>buildProject\<close> therefore succeeds
  with the versioned archive as release file, whatever happened inside the descriptor
  update.
\<close>

theorem descriptor_update_never_propagates:
  assumes "installDependencies env s = (Inr (), s1)"
    and "runBuild env s1 = (Inr (), s2)"
    and "existsSync env (pathJoin env [cwd env, ''mta.yaml'']) s2 = (Inr True, s3)"
    and "existsSync env (archivesPath env) s3 = (Inr True, s4)"
    and "readdirSync env (archivesPath env) s4 = (Inr files, s5)"
    and "filter isMtar files = f # fs"
    and "renameSync env (pathJoin env [archivesPath env, f])
           (versionedArchive env version projectName) s5 = (Inr (), s6)"
    and "versionedArchive env version projectName \<noteq> []"
  shows "(\<forall>v b t. fst (updateMtaYaml env v b t) = Inr ())
       \<and> (\<forall>e t1. getFileContent env ''mta.yaml'' (current bs) s6 = (Inl e, t1) \<longrightarrow>
            updateMtaYaml env version (current bs) s6 = (Inr (), t1))
       \<and> (\<forall>content e t1 t2. getFileContent env ''mta.yaml'' (current bs) s6 = (Inr content, t1)
            \<and> getFileSha env ''mta.yaml'' (current bs) t1 = (Inl e, t2) \<longrightarrow>
            updateMtaYaml env version (current bs) s6 = (Inr (), t2))
       \<and> (\<forall>content sha r t1 t2 t3. getFileContent env ''mta.yaml'' (current bs) s6 = (Inr content, t1)
            \<and> getFileSha env ''mta.yaml'' (current bs) t1 = (Inr sha, t2)
            \<and> updateFile env ''mta.yaml'' (updateMtaYamlVersion content version)
                 (''chore: update mta.yaml version to '' @ version) (current bs) sha t2 = (r, t3) \<longrightarrow>
            updateMtaYaml env version (current bs) s6 = (Inr (), t3))
       \<and> buildProject env version projectName bs s =
            (Inr (), (snd (updateMtaYaml env version (current bs) s6))
                       \<lparr>releaseFilePath := versionedArchive env version projectName\<rparr>)"
proof -
  have never: "\<forall>v b t. fst (updateMtaYaml env v b t) = Inr ()"
    unfolding updateMtaYaml_def by (simp add: tryCatch_swallow)
  have built: "buildProject env version projectName bs s =
            (Inr (), (snd (updateMtaYaml env version (current bs) s6))
                       \<lparr>releaseFilePath := versionedArchive env version projectName\<rparr>)"
    using processMtar_renamed[OF assms(4-7), of bs] assms(8)
    by (simp add: buildProject_archive[OF assms(1-3)] bindR_def returnR_def setReleaseFilePath_def)
  have r1: "\<forall>e t1. getFileContent env ''mta.yaml'' (current bs) s6 = (Inl e, t1) \<longrightarrow>
            updateMtaYaml env version (current bs) s6 = (Inr (), t1)"
    by (simp add: updateMtaYaml_read_fails)
  have r2: "\<forall>content e t1 t2. getFileContent env ''mta.yaml'' (current bs) s6 = (Inr content, t1)
            \<and> getFileSha env ''mta.yaml'' (current bs) t1 = (Inl e, t2) \<longrightarrow>
            updateMtaYaml env version (current bs) s6 = (Inr (), t2)"
    using updateMtaYaml_sha_fails[of env "current bs" s6] by blast
  have r3: "\<forall>content sha r t1 t2 t3. getFileContent env ''mta.yaml'' (current bs) s6 = (Inr content, t1)
            \<and> getFileSha env ''mta.yaml'' (current bs) t1 = (Inr sha, t2)
            \<and> updateFile env ''mta.yaml'' (updateMtaYamlVersion content version)
                 (''chore: update mta.yaml version to '' @ version) (current bs) sha t2 = (r, t3) \<longrightarrow>
            updateMtaYaml env version (current bs) s6 = (Inr (), t3)"
    using updateMtaYaml_commit[of env "current bs" s6] by blast
  show ?thesis
    by (rule conjI[OF never conjI[OF r1 conjI[OF r2 conjI[OF r3 built]]]])
qed

theorem descriptor_update_never_propagates_witness:
  "fst (getFileContent mtaUnreadableEnv ''mta.yaml'' ''release/1.2.0'' start) = Inl (Thrown ''Not Found'')
 \<and> buildProject mtaUnreadableEnv ''1.2.0'' ''tool'' demoBranches start =
     (Inr (),
      \<lparr>world = (),
       trace =
         [ExistsSync ''/work/package-lock.json'', ExistsSync ''/work/yarn.lock'', ExecSync ''npm install'',
          ExistsSync ''/work/yarn.lock'', ExecSync ''npm run build'', ExistsSync ''/work/mta.yaml'',
          ExistsSync ''/work/mta_archives'', ReaddirSync ''/work/mta_archives'',
          RenameSync ''/work/mta_archives/app.mtar'' ''/work/mta_archives/tool-v1.2.0.mtar'',
          GetFileContent ''mta.yaml'' ''release/1.2.0''],
       releaseFilePath = ''/work/mta_archives/tool-v1.2.0.mtar''\<rparr>)
 \<and> fst (handle mtaUnreadableEnv start) = Inr ''sha-main''"
proof -
  note ev = run_defs demo_defs mta_defs mtaUnreadableEnv_def
  define A where "A = mtaUnreadableEnv"
  define s1 where "s1 = snd (installDependencies A start)"
  define s2 where "s2 = snd (runBuild A s1)"
  define s3 where "s3 = snd (existsSync A (pathJoin A [cwd A, ''mta.yaml'']) s2)"
  define s4 where "s4 = snd (existsSync A (archivesPath A) s3)"
  define s5 where "s5 = snd (readdirSync A (archivesPath A) s4)"
  define s6 where "s6 = snd (renameSync A (pathJoin A [archivesPath A, ''app.mtar'']) (versionedArchive A ''1.2.0'' ''tool'') s5)"
  define s7 where "s7 = snd (getFileContent A ''mta.yaml'' (current demoBranches) s6)"
  have h1: "installDependencies A start = (Inr (), s1)" by (simp add: s1_def A_def ev)
  have h2: "runBuild A s1 = (Inr (), s2)" by (simp add: s2_def s1_def A_def ev)
  have h3: "existsSync A (pathJoin A [cwd A, ''mta.yaml'']) s2 = (Inr True, s3)"
    by (simp add: s3_def s2_def s1_def A_def ev)
  have h4: "existsSync A (archivesPath A) s3 = (Inr True, s4)"
    by (simp add: s4_def s3_def s2_def s1_def A_def ev)
  have h5: "readdirSync A (archivesPath A) s4 = (Inr [''notes.txt'', ''app.mtar''], s5)"
    by (simp add: s5_def s4_def s3_def s2_def s1_def A_def ev)
  have h6: "filter isMtar [''notes.txt'', ''app.mtar''] = [''app.mtar'']"
    by (simp add: mta_defs)
  have h7: "renameSync A (pathJoin A [archivesPath A, ''app.mtar'']) (versionedArchive A ''1.2.0'' ''tool'') s5
      = (Inr (), s6)"
    by (simp add: s6_def s5_def s4_def s3_def s2_def s1_def A_def ev)
  have h8: "versionedArchive A ''1.2.0'' ''tool'' \<noteq> []"
    by (simp add: A_def ev)
  have h9: "getFileContent A ''mta.yaml'' (current demoBranches) s6 = (Inl (Thrown ''Not Found''), s7)"
    by (simp add: s7_def s6_def s5_def s4_def s3_def s2_def s1_def A_def ev)
  note inst = descriptor_update_never_propagates[OF h1 h2 h3 h4 h5 h6 h7 h8, of demoBranches]
  from inst h9 have u: "updateMtaYaml A ''1.2.0'' (current demoBranches) s6 = (Inr (), s7)"
    by blast
  from inst have "buildProject A ''1.2.0'' ''tool'' demoBranches start =
      (Inr (), (snd (updateMtaYaml A ''1.2.0'' (current demoBranches) s6))
                 \<lparr>releaseFilePath := versionedArchive A ''1.2.0'' ''tool''\<rparr>)"
    by blast
  with u have b: "buildProject A ''1.2.0'' ''tool'' demoBranches start =
      (Inr (), s7\<lparr>releaseFilePath := versionedArchive A ''1.2.0'' ''tool''\<rparr>)"
    by simp
  have s7v: "s7\<lparr>releaseFilePath := versionedArchive A ''1.2.0'' ''tool''\<rparr> =
      \<lparr>world = (),
       trace =
         [ExistsSync ''/work/package-lock.json'', ExistsSync ''/work/yarn.lock'', ExecSync ''npm install'',
          ExistsSync ''/work/yarn.lock'', ExecSync ''npm run build'', ExistsSync ''/work/mta.yaml'',
          ExistsSync ''/work/mta_archives'', ReaddirSync ''/work/mta_archives'',
          RenameSync ''/work/mta_archives/app.mtar'' ''/work/mta_archives/tool-v1.2.0.mtar'',
          GetFileContent ''mta.yaml'' ''release/1.2.0''],
       releaseFilePath = ''/work/mta_archives/tool-v1.2.0.mtar''\<rparr>"
    by (simp add: s7_def s6_def s5_def s4_def s3_def s2_def s1_def A_def ev)
  have g: "fst (getFileContent mtaUnreadableEnv ''mta.yaml'' ''release/1.2.0'' start) = Inl (Thrown ''Not Found'')"
    by (simp add: ev)
  have h: "fst (handle mtaUnreadableEnv start) = Inr ''sha-main''"
    by (simp add: ev rx_eval)
  from b s7v g h show ?thesis unfolding A_def by simp
qed

subsection \<open>The archive build\<close>

lemma takeWhile_append_all:
  "list_all Q (takeWhile P xs) \<Longrightarrow> list_all Q (takeWhile P ys) \<Longrightarrow> list_all Q (takeWhile P (xs @ ys))"
  by (induction xs) auto

lemma renameComesFirstD:
  "renameComesFirst m \<Longrightarrow> m s = (r, s') \<Longrightarrow>
   \<exists>evs. trace s' = trace s @ evs
     \<and> list_all (\<lambda>e. \<not> isDescriptorCall e) (takeWhile (\<lambda>e. \<not> isRenameSync e) evs)"
  unfolding renameComesFirst_def by (metis snd_conv)

lemma renameComesFirst_emitsOnly:
  assumes "emitsOnly (\<lambda>e. \<not> isDescriptorCall e) m"
  shows "renameComesFirst m"
  unfolding renameComesFirst_def
proof
  fix s
  from assms obtain evs where
    e: "trace (snd (m s)) = trace s @ evs" "list_all (\<lambda>e. \<not> isDescriptorCall e) evs"
    unfolding emitsOnly_def by blast
  from e(2) have "list_all (\<lambda>e. \<not> isDescriptorCall e) (takeWhile (\<lambda>e. \<not> isRenameSync e) evs)"
    by (induction evs) auto
  with e(1) show "\<exists>evs. trace (snd (m s)) = trace s @ evs
        \<and> list_all (\<lambda>e. \<not> isDescriptorCall e) (takeWhile (\<lambda>e. \<not> isRenameSync e) evs)"
    by blast
qed

lemma renameComesFirst_bindR:
  assumes "renameComesFirst m" and "\<And>a. renameComesFirst (f a)"
  shows "renameComesFirst (bindR m f)"
  unfolding renameComesFirst_def
proof
  fix s
  obtain r s1 where ms: "m s = (r, s1)" by (cases "m s")
  from renameComesFirstD[OF assms(1) ms] obtain evs1 where
    e1: "trace s1 = trace s @ evs1"
      "list_all (\<lambda>e. \<not> isDescriptorCall e) (takeWhile (\<lambda>e. \<not> isRenameSync e) evs1)" by blast
  show "\<exists>evs. trace (snd (bindR m f s)) = trace s @ evs
        \<and> list_all (\<lambda>e. \<not> isDescriptorCall e) (takeWhile (\<lambda>e. \<not> isRenameSync e) evs)"
  proof (cases r)
    case (Inl e)
    with ms e1 show ?thesis by (simp add: bindR_def)
  next
    case (Inr a)
    obtain r2 s2 where fs: "f a s1 = (r2, s2)" by (cases "f a s1")
    from renameComesFirstD[OF assms(2) fs] obtain evs2 where
      e2: "trace s2 = trace s1 @ evs2"
        "list_all (\<lambda>e. \<not> isDescriptorCall e) (takeWhile (\<lambda>e. \<not> isRenameSync e) evs2)" by blast
    from ms Inr fs have "snd (bindR m f s) = s2" by (simp add: bindR_def)
    moreover have "trace s2 = trace s @ (evs1 @ evs2)" using e1 e2 by simp
    moreover have "list_all (\<lambda>e. \<not> isDescriptorCall e) (takeWhile (\<lambda>e. \<not> isRenameSync e) (evs1 @ evs2))"
      using e1(2) e2(2) by (rule takeWhile_append_all)
    ultimately show ?thesis by metis
  qed
qed

lemma renameComesFirst_rename:
  assumes "\<And>a. emitsOnly P (f a)"
  shows "renameComesFirst (bindR (renameSync env oldPath newPath) f)"
  unfolding renameComesFirst_def
proof
  fix s
  obtain r s1 where ms: "renameSync env oldPath newPath s = (r, s1)"
    by (cases "renameSync env oldPath newPath s")
  then have t1: "trace s1 = trace s @ [RenameSync oldPath newPath]"
    unfolding renameSync_def by (rule perform_trace)
  show "\<exists>evs. trace (snd (bindR (renameSync env oldPath newPath) f s)) = trace s @ evs
        \<and> list_all (\<lambda>e. \<not> isDescriptorCall e) (takeWhile (\<lambda>e. \<not> isRenameSync e) evs)"
  proof (cases r)
    case (Inl e)
    with ms t1 show ?thesis by (simp add: bindR_def)
  next
    case (Inr a)
    obtain r2 s2 where fs: "f a s1 = (r2, s2)" by (cases "f a s1")
    from emitsOnlyD[OF assms fs] obtain evs2 where e2: "trace s2 = trace s1 @ evs2" by blast
    from ms Inr fs have "snd (bindR (renameSync env oldPath newPath) f s) = s2" by (simp add: bindR_def)
    moreover have "trace s2 = trace s @ (RenameSync oldPath newPath # evs2)" using t1 e2 by simp
    moreover have "list_all (\<lambda>e. \<not> isDescriptorCall e)
        (takeWhile (\<lambda>e. \<not> isRenameSync e) (RenameSync oldPath newPath # evs2))" by simp
    ultimately show ?thesis by metis
  qed
qed

lemma renameComesFirst_if:
  "(c \<Longrightarrow> renameComesFirst a) \<Longrightarrow> (\<not> c \<Longrightarrow> renameComesFirst b) \<Longrightarrow>
   renameComesFirst (if c then a else b)"
  by simp

lemma renameComesFirst_processMtar: "renameComesFirst (processMtar env version projectName bs)"
proof -
  have calm: "\<And>p. emitsOnly (\<lambda>e. \<not> isDescriptorCall e) (existsSync env p)"
    "\<And>p. emitsOnly (\<lambda>e. \<not> isDescriptorCall e) (readdirSync env p)"
    unfolding call_defs by (intro emitsOnly_perform emitsOnly_observe, simp)+
  have following: "\<And>p (u :: unit). emitsOnly quiet
      (bindR (updateMtaYaml env version (current bs)) (\<lambda>_. returnR p))"
    by (intro emitsOnly_intros quiet_updateMtaYaml)
  show ?thesis
    unfolding processMtar_def tryCatch_rethrow Let_def
    apply (rule renameComesFirst_bindR)
     apply (rule renameComesFirst_emitsOnly, rule calm)
    apply (rule renameComesFirst_if)
     apply (rule renameComesFirst_bindR)
      apply (rule renameComesFirst_emitsOnly, rule calm)
     apply (rule renameComesFirst_if)
      apply (rule renameComesFirst_rename, rule following)
     apply (rule renameComesFirst_emitsOnly, rule emitsOnly_throwR)
    apply (rule renameComesFirst_emitsOnly, rule emitsOnly_throwR)
    done
qed

lemma renameComesFirst_buildProject: "renameComesFirst (buildProject env version projectName bs)"
proof -
  have calm: "emitsOnly (\<lambda>e. \<not> isDescriptorCall e) (installDependencies env)"
    "emitsOnly (\<lambda>e. \<not> isDescriptorCall e) (runBuild env)"
    "\<And>p. emitsOnly (\<lambda>e. \<not> isDescriptorCall e) (existsSync env p)"
    "emitsOnly (\<lambda>e. \<not> isDescriptorCall e) (verifyStandardBuild env)"
    unfolding installDependencies_def runBuild_def verifyStandardBuild_def call_defs
    by (intro emitsOnly_intros emitsOnly_perform emitsOnly_observe, simp_all)+
  have package: "\<And>p. emitsOnly (\<lambda>e. \<not> isDescriptorCall e)
       (bindR (if p = [] then createStandardPackage env version projectName else returnR p)
          setReleaseFilePath)"
    unfolding createStandardPackage_def call_defs Let_def
    by (intro emitsOnly_intros emitsOnly_perform) simp
  show ?thesis
    unfolding buildProject_def tryCatch_rethrow
    apply (rule renameComesFirst_bindR)
     apply (rule renameComesFirst_emitsOnly, rule calm)
    apply (rule renameComesFirst_bindR)
     apply (rule renameComesFirst_emitsOnly, rule calm)
    apply (rule renameComesFirst_bindR)
     apply (rule renameComesFirst_emitsOnly, rule calm)
    apply (rule renameComesFirst_bindR)
     apply (rule renameComesFirst_if)
      apply (rule renameComesFirst_processMtar)
     apply (rule renameComesFirst_emitsOnly, rule calm)
    apply (rule renameComesFirst_emitsOnly, rule package)
    done
qed

lemma buildProject_rename_first:
  "list_all (\<lambda>e. \<not> isDescriptorCall e)
     (takeWhile (\<lambda>e. \<not> isRenameSync e) (emitted s (snd (buildProject env version projectName bs s))))"
proof -
  obtain evs where "trace (snd (buildProject env version projectName bs s)) = trace s @ evs"
    "list_all (\<lambda>e. \<not> isDescriptorCall e) (takeWhile (\<lambda>e. \<not> isRenameSync e) evs)"
    using renameComesFirst_buildProject[of env version projectName bs]
    unfolding renameComesFirst_def by blast
  then show ?thesis by (simp add: emitted_def)
qed

lemma emitted_append: "trace s' = trace s @ evs \<Longrightarrow> emitted s s' = evs"
  by (simp add: emitted_def)

lemma descriptor_read_trace:
  assumes "renameSync env a b s5 = (r, s6)"
    and "getFileContent env p c s6 = (r1, t1)"
  shows "emitted s5 t1 = [RenameSync a b, GetFileContent p c]"
  using perform_trace[OF assms(1)[unfolded renameSync_def]]
    perform_trace[OF assms(2)[unfolded getFileContent_def]]
  by (simp add: emitted_def)

lemma descriptor_hash_trace:
  assumes "renameSync env a b s5 = (r, s6)"
    and "getFileContent env p c s6 = (r1, t1)"
    and "getFileSha env p c t1 = (r2, t2)"
  shows "emitted s5 t2 = [RenameSync a b, GetFileContent p c, GetContent p c]"
  using perform_trace[OF assms(1)[unfolded renameSync_def]]
    perform_trace[OF assms(2)[unfolded getFileContent_def]]
    perform_trace[OF assms(3)[unfolded getFileSha_def]]
  by (simp add: emitted_def)

lemma descriptor_commit_trace:
  assumes "renameSync env a b s5 = (r, s6)"
    and "getFileContent env p c s6 = (r1, t1)"
    and "getFileSha env p c t1 = (r2, t2)"
    and "updateFile env p text msg c sha t2 = (r3, t3)"
  shows "emitted s5 t3 =
           [RenameSync a b, GetFileContent p c, GetContent p c, UpdateFile p text msg c sha]"
  using perform_trace[OF assms(1)[unfolded renameSync_def]]
    perform_trace[OF assms(2)[unfolded getFileContent_def]]
    perform_trace[OF assms(3)[unfolded getFileSha_def]]
    perform_trace[OF assms(4)[unfolded updateFile_def]]
  by (simp add: emitted_def)

lemma buildProject_renamed:
  assumes "installDependencies env s = (Inr (), s1)"
    and "runBuild env s1 = (Inr (), s2)"
    and "existsSync env (pathJoin env [cwd env, ''mta.yaml'']) s2 = (Inr True, s3)"
    and "existsSync env (archivesPath env) s3 = (Inr True, s4)"
    and "readdirSync env (archivesPath env) s4 = (Inr files, s5)"
    and "filter isMtar files = f # fs"
    and "renameSync env (pathJoin env [archivesPath env, f])
           (versionedArchive env version projectName) s5 = (Inr (), s6)"
    and "versionedArchive env version projectName \<noteq> []"
    and "updateMtaYaml env version (current bs) s6 = (Inr (), s7)"
  shows "buildProject env version projectName bs s =
           (Inr (), s7\<lparr>releaseFilePath := versionedArchive env version projectName\<rparr>)"
  using processMtar_renamed[OF assms(4-7), of bs] assms(8,9)
  by (simp add: buildProject_archive[OF assms(1-3)] bindR_def returnR_def setReleaseFilePath_def)

text \<open>
  C5.  In a project with \<open>mta.yaml\<close>, once installation and build have succeeded: a missing
  archive directory or one without an \<open>.mtar\<close> file makes \<open>buildProject\<close> fail with a build
  error, and a build step that fails ends the run with its error.  Otherwise the first
  \<open>.mtar\<close> file is renamed to the versioned name, and that renaming is the only call made
  when it fails.  When it succeeds, the descriptor is read next, then its hash is fetched,
  then the text with the version patched is committed; whichever of the three calls fails
  is the last call, and the step succeeds all the same with the versioned archive as release
  file.  In every run of \<open>buildProject\<close>, no call on the descriptor comes before a renaming.
\<close>

theorem archive_is_renamed_before_descriptor_is_patched:
  assumes "installDependencies env s = (Inr (), s1)"
    and "runBuild env s1 = (Inr (), s2)"
    and "existsSync env (pathJoin env [cwd env, ''mta.yaml'']) s2 = (Inr True, s3)"
  shows "(existsSync env (archivesPath env) s3 = (Inr False, s4) \<longrightarrow>
            (\<exists>msg. buildProject env version projectName bs s = (Inl (BuildError msg), s4)))
       \<and> (existsSync env (archivesPath env) s3 = (Inr True, s4)
            \<and> readdirSync env (archivesPath env) s4 = (Inr files, s5) \<longrightarrow>
            (filter isMtar files = [] \<longrightarrow>
               (\<exists>msg. buildProject env version projectName bs s = (Inl (BuildError msg), s5)))
          \<and> (\<forall>f fs. filter isMtar files = f # fs \<longrightarrow>
               (\<forall>e. renameSync env (pathJoin env [archivesPath env, f])
                      (versionedArchive env version projectName) s5 = (Inl e, s6) \<longrightarrow>
                    buildProject env version projectName bs s = (Inl e, s6)
                  \<and> emitted s5 s6 =
                      [RenameSync (pathJoin env [archivesPath env, f])
                         (versionedArchive env version projectName)])
             \<and> (renameSync env (pathJoin env [archivesPath env, f])
                      (versionedArchive env version projectName) s5 = (Inr (), s6)
                  \<and> versionedArchive env version projectName \<noteq> [] \<longrightarrow>
                    (\<forall>e t1. getFileContent env ''mta.yaml'' (current bs) s6 = (Inl e, t1) \<longrightarrow>
                       buildProject env version projectName bs s =
                         (Inr (), t1\<lparr>releaseFilePath := versionedArchive env version projectName\<rparr>)
                     \<and> emitted s5 t1 =
                         [RenameSync (pathJoin env [archivesPath env, f])
                            (versionedArchive env version projectName),
                          GetFileContent ''mta.yaml'' (current bs)])
                  \<and> (\<forall>content e t1 t2.
                       getFileContent env ''mta.yaml'' (current bs) s6 = (Inr content, t1)
                       \<and> getFileSha env ''mta.yaml'' (current bs) t1 = (Inl e, t2) \<longrightarrow>
                       buildProject env version projectName bs s =
                         (Inr (), t2\<lparr>releaseFilePath := versionedArchive env version projectName\<rparr>)
                     \<and> emitted s5 t2 =
                         [RenameSync (pathJoin env [archivesPath env, f])
                            (versionedArchive env version projectName),
                          GetFileContent ''mta.yaml'' (current bs),
                          GetContent ''mta.yaml'' (current bs)])
                  \<and> (\<forall>content sha r t1 t2 t3.
                       getFileContent env ''mta.yaml'' (current bs) s6 = (Inr content, t1)
                       \<and> getFileSha env ''mta.yaml'' (current bs) t1 = (Inr sha, t2)
                       \<and> updateFile env ''mta.yaml'' (updateMtaYamlVersion content version)
                            (''chore: update mta.yaml version to '' @ version) (current bs) sha t2
                          = (r, t3) \<longrightarrow>
                       buildProject env version projectName bs s =
                         (Inr (), t3\<lparr>releaseFilePath := versionedArchive env version projectName\<rparr>)
                     \<and> emitted s5 t3 =
                         [RenameSync (pathJoin env [archivesPath env, f])
                            (versionedArchive env version projectName),
                          GetFileContent ''mta.yaml'' (current bs),
                          GetContent ''mta.yaml'' (current bs),
                          UpdateFile ''mta.yaml'' (updateMtaYamlVersion content version)
                            (''chore: update mta.yaml version to '' @ version) (current bs) sha]))))
       \<and> (\<forall>ps t sha t1 t2 e t3.
            Release_merge env bs t = (Inr sha, t1) \<and> createTag env bs ps sha t1 = (Inr (), t2)
            \<and> buildProject env version projectName bs t2 = (Inl e, t3) \<longrightarrow>
            stepsAfterChangelog env bs ps version projectName t = (Inl e, t3))
       \<and> list_all (\<lambda>e. \<not> isDescriptorCall e)
           (takeWhile (\<lambda>e. \<not> isRenameSync e)
              (emitted s (snd (buildProject env version projectName bs s))))"
proof -
  note bp = buildProject_archive[OF assms, of version projectName bs]
  let ?orig = "\<lambda>f. pathJoin env [archivesPath env, f]"
  let ?versioned = "versionedArchive env version projectName"
  let ?cur = "current bs"
  have a: "existsSync env (archivesPath env) s3 = (Inr False, s4) \<longrightarrow>
      (\<exists>msg. buildProject env version projectName bs s = (Inl (BuildError msg), s4))"
  proof
    assume h: "existsSync env (archivesPath env) s3 = (Inr False, s4)"
    from processMtar_no_directory[OF h, of version projectName bs] obtain msg where
      "processMtar env version projectName bs s3 = (Inl (BuildError msg), s4)" by blast
    then show "\<exists>msg. buildProject env version projectName bs s = (Inl (BuildError msg), s4)"
      by (simp add: bp bindR_def)
  qed
  have rest: "(filter isMtar files = [] \<longrightarrow>
               (\<exists>msg. buildProject env version projectName bs s = (Inl (BuildError msg), s5)))
          \<and> (\<forall>f fs. filter isMtar files = f # fs \<longrightarrow>
               (\<forall>e. renameSync env (?orig f) ?versioned s5 = (Inl e, s6) \<longrightarrow>
                    buildProject env version projectName bs s = (Inl e, s6)
                  \<and> emitted s5 s6 = [RenameSync (?orig f) ?versioned])
             \<and> (renameSync env (?orig f) ?versioned s5 = (Inr (), s6) \<and> ?versioned \<noteq> [] \<longrightarrow>
                    (\<forall>e t1. getFileContent env ''mta.yaml'' ?cur s6 = (Inl e, t1) \<longrightarrow>
                       buildProject env version projectName bs s =
                         (Inr (), t1\<lparr>releaseFilePath := ?versioned\<rparr>)
                     \<and> emitted s5 t1 = [RenameSync (?orig f) ?versioned, GetFileContent ''mta.yaml'' ?cur])
                  \<and> (\<forall>content e t1 t2.
                       getFileContent env ''mta.yaml'' ?cur s6 = (Inr content, t1)
                       \<and> getFileSha env ''mta.yaml'' ?cur t1 = (Inl e, t2) \<longrightarrow>
                       buildProject env version projectName bs s =
                         (Inr (), t2\<lparr>releaseFilePath := ?versioned\<rparr>)
                     \<and> emitted s5 t2 =
                         [RenameSync (?orig f) ?versioned, GetFileContent ''mta.yaml'' ?cur,
                          GetContent ''mta.yaml'' ?cur])
                  \<and> (\<forall>content sha r t1 t2 t3.
                       getFileContent env ''mta.yaml'' ?cur s6 = (Inr content, t1)
                       \<and> getFileSha env ''mta.yaml'' ?cur t1 = (Inr sha, t2)
                       \<and> updateFile env ''mta.yaml'' (updateMtaYamlVersion content version)
                            (''chore: update mta.yaml version to '' @ version) ?cur sha t2
                          = (r, t3) \<longrightarrow>
                       buildProject env version projectName bs s =
                         (Inr (), t3\<lparr>releaseFilePath := ?versioned\<rparr>)
                     \<and> emitted s5 t3 =
                         [RenameSync (?orig f) ?versioned, GetFileContent ''mta.yaml'' ?cur,
                          GetContent ''mta.yaml'' ?cur,
                          UpdateFile ''mta.yaml'' (updateMtaYamlVersion content version)
                            (''chore: update mta.yaml version to '' @ version) ?cur sha])))"
    if h4: "existsSync env (archivesPath env) s3 = (Inr True, s4)"
      and h5: "readdirSync env (archivesPath env) s4 = (Inr files, s5)"
  proof (intro conjI impI allI)
    assume h6: "filter isMtar files = []"
    from processMtar_no_archive[OF h4 h5 h6, of version projectName bs] obtain msg where
      "processMtar env version projectName bs s3 = (Inl (BuildError msg), s5)" by blast
    then show "\<exists>msg. buildProject env version projectName bs s = (Inl (BuildError msg), s5)"
      by (simp add: bp bindR_def)
  next
    fix f fs e
    assume h6: "filter isMtar files = f # fs"
      and h7: "renameSync env (?orig f) ?versioned s5 = (Inl e, s6)"
    from processMtar_rename_fails[OF h4 h5 h6 h7, of bs]
    show "buildProject env version projectName bs s = (Inl e, s6)"
      by (simp add: bp bindR_def)
  next
    fix f fs e
    assume h7: "renameSync env (?orig f) ?versioned s5 = (Inl e, s6)"
    from perform_trace[OF h7[unfolded renameSync_def]]
    show "emitted s5 s6 = [RenameSync (?orig f) ?versioned]"
      by (rule emitted_append)
  next
    fix f fs e t1
    assume h6: "filter isMtar files = f # fs"
      and h78: "renameSync env (?orig f) ?versioned s5 = (Inr (), s6) \<and> ?versioned \<noteq> []"
      and g: "getFileContent env ''mta.yaml'' ?cur s6 = (Inl e, t1)"
    from h78 have h7: "renameSync env (?orig f) ?versioned s5 = (Inr (), s6)"
      and h8: "?versioned \<noteq> []" by simp_all
    show "buildProject env version projectName bs s = (Inr (), t1\<lparr>releaseFilePath := ?versioned\<rparr>)"
      by (rule buildProject_renamed[OF assms h4 h5 h6 h7 h8 updateMtaYaml_read_fails[OF g]])
  next
    fix f fs e t1
    assume h78: "renameSync env (?orig f) ?versioned s5 = (Inr (), s6) \<and> ?versioned \<noteq> []"
      and g: "getFileContent env ''mta.yaml'' ?cur s6 = (Inl e, t1)"
    from h78 have h7: "renameSync env (?orig f) ?versioned s5 = (Inr (), s6)" by simp
    show "emitted s5 t1 = [RenameSync (?orig f) ?versioned, GetFileContent ''mta.yaml'' ?cur]"
      by (rule descriptor_read_trace[OF h7 g])
  next
    fix f fs content e t1 t2
    assume h6: "filter isMtar files = f # fs"
      and h78: "renameSync env (?orig f) ?versioned s5 = (Inr (), s6) \<and> ?versioned \<noteq> []"
      and g: "getFileContent env ''mta.yaml'' ?cur s6 = (Inr content, t1)
                \<and> getFileSha env ''mta.yaml'' ?cur t1 = (Inl e, t2)"
    from h78 have h7: "renameSync env (?orig f) ?versioned s5 = (Inr (), s6)"
      and h8: "?versioned \<noteq> []" by simp_all
    from g have g1: "getFileContent env ''mta.yaml'' ?cur s6 = (Inr content, t1)"
      and g2: "getFileSha env ''mta.yaml'' ?cur t1 = (Inl e, t2)" by simp_all
    show "buildProject env version projectName bs s = (Inr (), t2\<lparr>releaseFilePath := ?versioned\<rparr>)"
      by (rule buildProject_renamed[OF assms h4 h5 h6 h7 h8 updateMtaYaml_sha_fails[OF g1 g2]])
  next
    fix f fs content e t1 t2
    assume h78: "renameSync env (?orig f) ?versioned s5 = (Inr (), s6) \<and> ?versioned \<noteq> []"
      and g: "getFileContent env ''mta.yaml'' ?cur s6 = (Inr content, t1)
                \<and> getFileSha env ''mta.yaml'' ?cur t1 = (Inl e, t2)"
    from h78 have h7: "renameSync env (?orig f) ?versioned s5 = (Inr (), s6)" by simp
    from g have g1: "getFileContent env ''mta.yaml'' ?cur s6 = (Inr content, t1)"
      and g2: "getFileSha env ''mta.yaml'' ?cur t1 = (Inl e, t2)" by simp_all
    show "emitted s5 t2 = [RenameSync (?orig f) ?versioned, GetFileContent ''mta.yaml'' ?cur,
                          GetContent ''mta.yaml'' ?cur]"
      by (rule descriptor_hash_trace[OF h7 g1 g2])
  next
    fix f fs content sha r t1 t2 t3
    assume h6: "filter isMtar files = f # fs"
      and h78: "renameSync env (?orig f) ?versioned s5 = (Inr (), s6) \<and> ?versioned \<noteq> []"
      and g: "getFileContent env ''mta.yaml'' ?cur s6 = (Inr content, t1)
                \<and> getFileSha env ''mta.yaml'' ?cur t1 = (Inr sha, t2)
                \<and> updateFile env ''mta.yaml'' (updateMtaYamlVersion content version)
                     (''chore: update mta.yaml version to '' @ version) ?cur sha t2 = (r, t3)"
    from h78 have h7: "renameSync env (?orig f) ?versioned s5 = (Inr (), s6)"
      and h8: "?versioned \<noteq> []" by simp_all
    from g have g1: "getFileContent env ''mta.yaml'' ?cur s6 = (Inr content, t1)"
      and g2: "getFileSha env ''mta.yaml'' ?cur t1 = (Inr sha, t2)"
      and g3: "updateFile env ''mta.yaml'' (updateMtaYamlVersion content version)
                     (''chore: update mta.yaml version to '' @ version) ?cur sha t2 = (r, t3)"
      by simp_all
    show "buildProject env version projectName bs s = (Inr (), t3\<lparr>releaseFilePath := ?versioned\<rparr>)"
      by (rule buildProject_renamed[OF assms h4 h5 h6 h7 h8 updateMtaYaml_commit[OF g1 g2 g3]])
  next
    fix f fs content sha r t1 t2 t3
    assume h78: "renameSync env (?orig f) ?versioned s5 = (Inr (), s6) \<and> ?versioned \<noteq> []"
      and g: "getFileContent env ''mta.yaml'' ?cur s6 = (Inr content, t1)
                \<and> getFileSha env ''mta.yaml'' ?cur t1 = (Inr sha, t2)
                \<and> updateFile env ''mta.yaml'' (updateMtaYamlVersion content version)
                     (''chore: update mta.yaml version to '' @ version) ?cur sha t2 = (r, t3)"
    from h78 have h7: "renameSync env (?orig f) ?versioned s5 = (Inr (), s6)" by simp
    from g have g1: "getFileContent env ''mta.yaml'' ?cur s6 = (Inr content, t1)"
      and g2: "getFileSha env ''mta.yaml'' ?cur t1 = (Inr sha, t2)"
      and g3: "updateFile env ''mta.yaml'' (updateMtaYamlVersion content version)
                     (''chore: update mta.yaml version to '' @ version) ?cur sha t2 = (r, t3)"
      by simp_all
    show "emitted s5 t3 = [RenameSync (?orig f) ?versioned, GetFileContent ''mta.yaml'' ?cur,
                          GetContent ''mta.yaml'' ?cur,
                          UpdateFile ''mta.yaml'' (updateMtaYamlVersion content version)
                            (''chore: update mta.yaml version to '' @ version) ?cur sha]"
      by (rule descriptor_commit_trace[OF h7 g1 g2 g3])
  qed
  have b: "existsSync env (archivesPath env) s3 = (Inr True, s4)
            \<and> readdirSync env (archivesPath env) s4 = (Inr files, s5) \<longrightarrow>
            (filter isMtar files = [] \<longrightarrow>
               (\<exists>msg. buildProject env version projectName bs s = (Inl (BuildError msg), s5)))
          \<and> (\<forall>f fs. filter isMtar files = f # fs \<longrightarrow>
               (\<forall>e. renameSync env (?orig f) ?versioned s5 = (Inl e, s6) \<longrightarrow>
                    buildProject env version projectName bs s = (Inl e, s6)
                  \<and> emitted s5 s6 = [RenameSync (?orig f) ?versioned])
             \<and> (renameSync env (?orig f) ?versioned s5 = (Inr (), s6) \<and> ?versioned \<noteq> [] \<longrightarrow>
                    (\<forall>e t1. getFileContent env ''mta.yaml'' ?cur s6 = (Inl e, t1) \<longrightarrow>
                       buildProject env version projectName bs s =
                         (Inr (), t1\<lparr>releaseFilePath := ?versioned\<rparr>)
                     \<and> emitted s5 t1 = [RenameSync (?orig f) ?versioned, GetFileContent ''mta.yaml'' ?cur])
                  \<and> (\<forall>content e t1 t2.
                       getFileContent env ''mta.yaml'' ?cur s6 = (Inr content, t1)
                       \<and> getFileSha env ''mta.yaml'' ?cur t1 = (Inl e, t2) \<longrightarrow>
                       buildProject env version projectName bs s =
                         (Inr (), t2\<lparr>releaseFilePath := ?versioned\<rparr>)
                     \<and> emitted s5 t2 =
                         [RenameSync (?orig f) ?versioned, GetFileContent ''mta.yaml'' ?cur,
                          GetContent ''mta.yaml'' ?cur])
                  \<and> (\<forall>content sha r t1 t2 t3.
                       getFileContent env ''mta.yaml'' ?cur s6 = (Inr content, t1)
                       \<and> getFileSha env ''mta.yaml'' ?cur t1 = (Inr sha, t2)
                       \<and> updateFile env ''mta.yaml'' (updateMtaYamlVersion content version)
                            (''chore: update mta.yaml version to '' @ version) ?cur sha t2
                          = (r, t3) \<longrightarrow>
                       buildProject env version projectName bs s =
                         (Inr (), t3\<lparr>releaseFilePath := ?versioned\<rparr>)
                     \<and> emitted s5 t3 =
                         [RenameSync (?orig f) ?versioned, GetFileContent ''mta.yaml'' ?cur,
                          GetContent ''mta.yaml'' ?cur,
                          UpdateFile ''mta.yaml'' (updateMtaYamlVersion content version)
                            (''chore: update mta.yaml version to '' @ version) ?cur sha])))"
    by (rule impI) (elim conjE, rule rest)
  have e: "\<forall>ps t sha t1 t2 e t3.
            Release_merge env bs t = (Inr sha, t1) \<and> createTag env bs ps sha t1 = (Inr (), t2)
            \<and> buildProject env version projectName bs t2 = (Inl e, t3) \<longrightarrow>
            stepsAfterChangelog env bs ps version projectName t = (Inl e, t3)"
    using stepsAfterChangelog_build_fails[of env bs] by blast
  show ?thesis
    by (rule conjI[OF a conjI[OF b conjI[OF e buildProject_rename_first]]])
qed

lemmas patch_eval = updateMtaYamlVersion_def matchLength_def atLineStart_def isWhiteSpace_def
  isLineTerminator_def newline_def

theorem archive_is_renamed_before_descriptor_is_patched_witness:
  "(\<exists>msg. fst (buildProject (mtaEnv False [] (Inr ())) ''1.2.0'' ''tool'' demoBranches start) = Inl (BuildError msg))
 \<and> (\<exists>msg. fst (buildProject (mtaEnv True [''notes.txt''] (Inr ())) ''1.2.0'' ''tool'' demoBranches start) = Inl (BuildError msg))
 \<and> fst (buildProject (mtaEnv True [''notes.txt'', ''app.mtar'', ''old.mtar''] (Inl ''EPERM'')) ''1.2.0'' ''tool'' demoBranches start) = Inl (Thrown ''EPERM'')
 \<and> buildProject (mtaEnv True [''notes.txt'', ''app.mtar'', ''old.mtar''] (Inr ())) ''1.2.0'' ''tool'' demoBranches start =
     (Inr (),
      \<lparr>world = (),
       trace =
         [ExistsSync ''/work/package-lock.json'', ExistsSync ''/work/yarn.lock'', ExecSync ''npm install'',
          ExistsSync ''/work/yarn.lock'', ExecSync ''npm run build'', ExistsSync ''/work/mta.yaml'',
          ExistsSync ''/work/mta_archives'', ReaddirSync ''/work/mta_archives'',
          RenameSync ''/work/mta_archives/app.mtar'' ''/work/mta_archives/tool-v1.2.0.mtar'',
          GetFileContent ''mta.yaml'' ''release/1.2.0'',
          GetContent ''mta.yaml'' ''release/1.2.0'',
          UpdateFile ''mta.yaml'' ''version: 1.2.0'' ''chore: update mta.yaml version to 1.2.0''
            ''release/1.2.0'' ''blob''],
       releaseFilePath = ''/work/mta_archives/tool-v1.2.0.mtar''\<rparr>)
 \<and> (\<exists>msg. fst (handle (mtaEnv False [] (Inr ())) start) = Inl (BuildError msg))
 \<and> filter isMergeOrDelete (emitted start (snd (handle (mtaEnv False [] (Inr ())) start))) =
     [Merge ''release/1.2.0'' ''develop'', Merge ''release/1.2.0'' ''main'']"
proof -
  note ev = run_defs demo_defs mta_defs
  have ra: "\<exists>msg. fst (buildProject (mtaEnv False [] (Inr ())) ''1.2.0'' ''tool'' demoBranches start) = Inl (BuildError msg)"
  proof -
    define A where "A = mtaEnv False [] (Inr ())"
    define s1 where "s1 = snd (installDependencies A start)"
    define s2 where "s2 = snd (runBuild A s1)"
    define s3 where "s3 = snd (existsSync A (pathJoin A [cwd A, ''mta.yaml'']) s2)"
    define s4 where "s4 = snd (existsSync A (archivesPath A) s3)"
    have h1: "installDependencies A start = (Inr (), s1)" by (simp add: s1_def A_def ev)
    have h2: "runBuild A s1 = (Inr (), s2)" by (simp add: s2_def s1_def A_def ev)
    have h3: "existsSync A (pathJoin A [cwd A, ''mta.yaml'']) s2 = (Inr True, s3)"
      by (simp add: s3_def s2_def s1_def A_def ev)
    have h4: "existsSync A (archivesPath A) s3 = (Inr False, s4)"
      by (simp add: s4_def s3_def s2_def s1_def A_def ev)
    from archive_is_renamed_before_descriptor_is_patched[OF h1 h2 h3,
        of s4 "''1.2.0''" "''tool''" demoBranches, THEN conjunct1] h4
    show ?thesis unfolding A_def by (metis fst_conv)
  qed
  have rb: "\<exists>msg. fst (buildProject (mtaEnv True [''notes.txt''] (Inr ())) ''1.2.0'' ''tool'' demoBranches start) = Inl (BuildError msg)"
  proof -
    define A where "A = mtaEnv True [''notes.txt''] (Inr ())"
    define s1 where "s1 = snd (installDependencies A start)"
    define s2 where "s2 = snd (runBuild A s1)"
    define s3 where "s3 = snd (existsSync A (pathJoin A [cwd A, ''mta.yaml'']) s2)"
    define s4 where "s4 = snd (existsSync A (archivesPath A) s3)"
    define s5 where "s5 = snd (readdirSync A (archivesPath A) s4)"
    have h1: "installDependencies A start = (Inr (), s1)" by (simp add: s1_def A_def ev)
    have h2: "runBuild A s1 = (Inr (), s2)" by (simp add: s2_def s1_def A_def ev)
    have h3: "existsSync A (pathJoin A [cwd A, ''mta.yaml'']) s2 = (Inr True, s3)"
      by (simp add: s3_def s2_def s1_def A_def ev)
    have h4: "existsSync A (archivesPath A) s3 = (Inr True, s4)"
      by (simp add: s4_def s3_def s2_def s1_def A_def ev)
    have h5: "readdirSync A (archivesPath A) s4 = (Inr [''notes.txt''], s5)"
      by (simp add: s5_def s4_def s3_def s2_def s1_def A_def ev)
    have h6: "filter isMtar [''notes.txt''] = []" by (simp add: mta_defs)
    from archive_is_renamed_before_descriptor_is_patched[OF h1 h2 h3,
        of s4 "''1.2.0''" "''tool''" demoBranches "[''notes.txt'']" s5,
        THEN conjunct2, THEN conjunct1] h4 h5 h6
    show ?thesis unfolding A_def by (metis fst_conv)
  qed
  have rc: "fst (buildProject (mtaEnv True [''notes.txt'', ''app.mtar'', ''old.mtar''] (Inl ''EPERM'')) ''1.2.0'' ''tool'' demoBranches start) = Inl (Thrown ''EPERM'')"
  proof -
    define A where "A = mtaEnv True [''notes.txt'', ''app.mtar'', ''old.mtar''] (Inl ''EPERM'')"
    define s1 where "s1 = snd (installDependencies A start)"
    define s2 where "s2 = snd (runBuild A s1)"
    define s3 where "s3 = snd (existsSync A (pathJoin A [cwd A, ''mta.yaml'']) s2)"
    define s4 where "s4 = snd (existsSync A (archivesPath A) s3)"
    define s5 where "s5 = snd (readdirSync A (archivesPath A) s4)"
    define s6 where "s6 = snd (renameSync A (pathJoin A [archivesPath A, ''app.mtar'']) (versionedArchive A ''1.2.0'' ''tool'') s5)"
    have h1: "installDependencies A start = (Inr (), s1)" by (simp add: s1_def A_def ev)
    have h2: "runBuild A s1 = (Inr (), s2)" by (simp add: s2_def s1_def A_def ev)
    have h3: "existsSync A (pathJoin A [cwd A, ''mta.yaml'']) s2 = (Inr True, s3)"
      by (simp add: s3_def s2_def s1_def A_def ev)
    have h4: "existsSync A (archivesPath A) s3 = (Inr True, s4)"
      by (simp add: s4_def s3_def s2_def s1_def A_def ev)
    have h5: "readdirSync A (archivesPath A) s4 = (Inr [''notes.txt'', ''app.mtar'', ''old.mtar''], s5)"
      by (simp add: s5_def s4_def s3_def s2_def s1_def A_def ev)
    have h6: "filter isMtar [''notes.txt'', ''app.mtar'', ''old.mtar''] = [''app.mtar'', ''old.mtar'']"
      by (simp add: mta_defs)
    have h7: "renameSync A (pathJoin A [archivesPath A, ''app.mtar'']) (versionedArchive A ''1.2.0'' ''tool'') s5
        = (Inl (Thrown ''EPERM''), s6)"
      by (simp add: s6_def s5_def s4_def s3_def s2_def s1_def A_def ev)
    from archive_is_renamed_before_descriptor_is_patched[OF h1 h2 h3,
        of s4 "''1.2.0''" "''tool''" demoBranches "[''notes.txt'', ''app.mtar'', ''old.mtar'']" s5 s6,
        THEN conjunct2, THEN conjunct1] h4 h5 h6 h7
    show ?thesis unfolding A_def by (metis fst_conv)
  qed
  have rd: "buildProject (mtaEnv True [''notes.txt'', ''app.mtar'', ''old.mtar''] (Inr ())) ''1.2.0'' ''tool'' demoBranches start =
     (Inr (),
      \<lparr>world = (),
       trace =
         [ExistsSync ''/work/package-lock.json'', ExistsSync ''/work/yarn.lock'', ExecSync ''npm install'',
          ExistsSync ''/work/yarn.lock'', ExecSync ''npm run build'', ExistsSync ''/work/mta.yaml'',
          ExistsSync ''/work/mta_archives'', ReaddirSync ''/work/mta_archives'',
          RenameSync ''/work/mta_archives/app.mtar'' ''/work/mta_archives/tool-v1.2.0.mtar'',
          GetFileContent ''mta.yaml'' ''release/1.2.0'',
          GetContent ''mta.yaml'' ''release/1.2.0'',
          UpdateFile ''mta.yaml'' ''version: 1.2.0'' ''chore: update mta.yaml version to 1.2.0''
            ''release/1.2.0'' ''blob''],
       releaseFilePath = ''/work/mta_archives/tool-v1.2.0.mtar''\<rparr>)"
  proof -
    define A where "A = mtaEnv True [''notes.txt'', ''app.mtar'', ''old.mtar''] (Inr ())"
    define s1 where "s1 = snd (installDependencies A start)"
    define s2 where "s2 = snd (runBuild A s1)"
    define s3 where "s3 = snd (existsSync A (pathJoin A [cwd A, ''mta.yaml'']) s2)"
    define s4 where "s4 = snd (existsSync A (archivesPath A) s3)"
    define s5 where "s5 = snd (readdirSync A (archivesPath A) s4)"
    define s6 where "s6 = snd (renameSync A (pathJoin A [archivesPath A, ''app.mtar'']) (versionedArchive A ''1.2.0'' ''tool'') s5)"
    define t1 where "t1 = snd (getFileContent A ''mta.yaml'' (current demoBranches) s6)"
    define t2 where "t2 = snd (getFileSha A ''mta.yaml'' (current demoBranches) t1)"
    define t3 where "t3 = snd (updateFile A ''mta.yaml'' (updateMtaYamlVersion ''version: 0.0.1'' ''1.2.0'')
        (''chore: update mta.yaml version to '' @ ''1.2.0'') (current demoBranches) ''blob'' t2)"
    note st = t3_def t2_def t1_def s6_def s5_def s4_def s3_def s2_def s1_def A_def
    have h1: "installDependencies A start = (Inr (), s1)" by (simp add: s1_def A_def ev)
    have h2: "runBuild A s1 = (Inr (), s2)" by (simp add: s2_def s1_def A_def ev)
    have h3: "existsSync A (pathJoin A [cwd A, ''mta.yaml'']) s2 = (Inr True, s3)"
      by (simp add: s3_def s2_def s1_def A_def ev)
    have h4: "existsSync A (archivesPath A) s3 = (Inr True, s4)"
      by (simp add: s4_def s3_def s2_def s1_def A_def ev)
    have h5: "readdirSync A (archivesPath A) s4 = (Inr [''notes.txt'', ''app.mtar'', ''old.mtar''], s5)"
      by (simp add: s5_def s4_def s3_def s2_def s1_def A_def ev)
    have h6: "filter isMtar [''notes.txt'', ''app.mtar'', ''old.mtar''] = [''app.mtar'', ''old.mtar'']"
      by (simp add: mta_defs)
    have h7: "renameSync A (pathJoin A [archivesPath A, ''app.mtar'']) (versionedArchive A ''1.2.0'' ''tool'') s5
        = (Inr (), s6)"
      by (simp add: s6_def s5_def s4_def s3_def s2_def s1_def A_def ev)
    have h8: "versionedArchive A ''1.2.0'' ''tool'' = ''/work/mta_archives/tool-v1.2.0.mtar''"
      by (simp add: A_def ev)
    have g1: "getFileContent A ''mta.yaml'' (current demoBranches) s6 = (Inr ''version: 0.0.1'', t1)"
      by (simp add: t1_def s6_def s5_def s4_def s3_def s2_def s1_def A_def ev)
    have g2: "getFileSha A ''mta.yaml'' (current demoBranches) t1 = (Inr ''blob'', t2)"
      by (simp add: t2_def t1_def s6_def s5_def s4_def s3_def s2_def s1_def A_def ev)
    have g3: "updateFile A ''mta.yaml'' (updateMtaYamlVersion ''version: 0.0.1'' ''1.2.0'')
        (''chore: update mta.yaml version to '' @ ''1.2.0'') (current demoBranches) ''blob'' t2 = (Inr (), t3)"
      by (simp add: st ev)
    from h7 h8 have h78: "renameSync A (pathJoin A [archivesPath A, ''app.mtar''])
           (versionedArchive A ''1.2.0'' ''tool'') s5 = (Inr (), s6)
         \<and> versionedArchive A ''1.2.0'' ''tool'' \<noteq> []" by simp
    note inst = archive_is_renamed_before_descriptor_is_patched[OF h1 h2 h3,
        of s4 "''1.2.0''" "''tool''" demoBranches "[''notes.txt'', ''app.mtar'', ''old.mtar'']" s5 s6,
        THEN conjunct2, THEN conjunct1, rule_format, OF conjI[OF h4 h5],
        THEN conjunct2, rule_format, OF h6, THEN conjunct2, rule_format, OF h78,
        THEN conjunct2, THEN conjunct2, rule_format, OF conjI[OF g1 conjI[OF g2 g3]],
        THEN conjunct1]
    have v: "t3\<lparr>releaseFilePath := versionedArchive A ''1.2.0'' ''tool''\<rparr> =
      \<lparr>world = (),
       trace =
         [ExistsSync ''/work/package-lock.json'', ExistsSync ''/work/yarn.lock'', ExecSync ''npm install'',
          ExistsSync ''/work/yarn.lock'', ExecSync ''npm run build'', ExistsSync ''/work/mta.yaml'',
          ExistsSync ''/work/mta_archives'', ReaddirSync ''/work/mta_archives'',
          RenameSync ''/work/mta_archives/app.mtar'' ''/work/mta_archives/tool-v1.2.0.mtar'',
          GetFileContent ''mta.yaml'' ''release/1.2.0'',
          GetContent ''mta.yaml'' ''release/1.2.0'',
          UpdateFile ''mta.yaml'' ''version: 1.2.0'' ''chore: update mta.yaml version to 1.2.0''
            ''release/1.2.0'' ''blob''],
       releaseFilePath = ''/work/mta_archives/tool-v1.2.0.mtar''\<rparr>"
      by (simp add: st ev patch_eval)
    from inst v show ?thesis unfolding A_def by simp
  qed
  have re: "\<exists>msg. fst (handle (mtaEnv False [] (Inr ())) start) = Inl (BuildError msg)"
    by (simp add: ev rx_eval)
  have rf: "filter isMergeOrDelete (emitted start (snd (handle (mtaEnv False [] (Inr ())) start))) =
     [Merge ''release/1.2.0'' ''develop'', Merge ''release/1.2.0'' ''main'']"
    by (simp add: ev rx_eval emitted_def)
  from ra rb rc rd re rf show ?thesis by blast
qed

text \<open>
  C5, as stated, fails: the archive is renamed and the build step succeeds, yet the
  descriptor is not patched, because it could not be read; no commit of it is attempted.
\<close>

theorem renamed_archive_with_unpatched_descriptor:
  "fst (buildProject mtaUnreadableEnv ''1.2.0'' ''tool'' demoBranches start) = Inr ()
 \<and> filter (\<lambda>e. isRenameSync e \<or> isDescriptorCall e)
     (emitted start (snd (buildProject mtaUnreadableEnv ''1.2.0'' ''tool'' demoBranches start))) =
     [RenameSync ''/work/mta_archives/app.mtar'' ''/work/mta_archives/tool-v1.2.0.mtar'',
      GetFileContent ''mta.yaml'' ''release/1.2.0'']
 \<and> fst (getFileContent mtaUnreadableEnv ''mta.yaml'' ''release/1.2.0'' start) = Inl (Thrown ''Not Found'')"
  by (simp add: run_defs demo_defs mta_defs mtaUnreadableEnv_def emitted_def)

subsection \<open>The handler\<close>

lemma getBranches_state:
  "getBranches env s = (r, s1) \<Longrightarrow>
   s1 = s\<lparr>world := snd (gh_getBranches env (world s)), trace := trace s @ [GetBranches]\<rparr>"
  by (auto simp: getBranches_def perform_def split: prod.splits sum.splits)

text \<open>
  When the extraction of the version fails, \<open>handle\<close> fails with its error, and the only
  call of the run is \<open>getBranches\<close>.
\<close>

lemma handle_extraction_fails:
  assumes "getBranches env s = (Inr bs, s1)"
    and "extractVersionFromBranch (current bs) (release (inputPrefixes env)) = Inl (ValidationError b)"
  shows "handle env s =
           (Inl (ValidationError b),
            s\<lparr>world := snd (gh_getBranches env (world s)), trace := trace s @ [GetBranches]\<rparr>)
       \<and> emitted s (snd (handle env s)) = [GetBranches]"
proof -
  have "handle env s = (Inl (ValidationError b), s1)"
    using assms by (simp add: handle_def bindR_def liftE_def Let_def)
  with getBranches_state[OF assms(1)] show ?thesis
    by (simp add: emitted_def)
qed

lemma handle_on_release_abc:
  "extractVersionFromBranch ''release/abc'' ''release/'' = Inl (ValidationError ''release/abc'')
 \<and> handle badBranchEnv start = (Inl (ValidationError ''release/abc''), start\<lparr>trace := [GetBranches]\<rparr>)
 \<and> emitted start (snd (handle badBranchEnv start)) = [GetBranches]"
proof -
  note ev = run_defs demo_defs badBranchEnv_def
  have h1: "getBranches badBranchEnv start =
      (Inr (demoBranches\<lparr>current := ''release/abc''\<rparr>), start\<lparr>trace := [GetBranches]\<rparr>)"
    by (simp add: ev)
  have x: "extractVersionFromBranch ''release/abc'' ''release/'' = Inl (ValidationError ''release/abc'')"
    by (simp add: rx_eval)
  have h2: "extractVersionFromBranch (current (demoBranches\<lparr>current := ''release/abc''\<rparr>))
      (release (inputPrefixes badBranchEnv)) = Inl (ValidationError ''release/abc'')"
    using x by (simp add: ev)
  from handle_extraction_fails[OF h1 h2] x show ?thesis
    by (simp add: ev)
qed

text \<open>
  C4.  The changelog step never throws, whatever fails inside it, and \<open>handle\<close> goes on
  with the merges from the state the step left: the result of the run is the result of
  the steps that follow.
\<close>

theorem changelog_failure_never_aborts:
  assumes "getBranches env s = (Inr bs, s1)"
    and "extractVersionFromBranch (current bs) (release (inputPrefixes env)) = Inr version"
    and "projectNameOf env s1 = (Inr projectName, s2)"
    and "updateVersionFiles env bs (inputPrefixes env) s2 = (Inr (), s3)"
  shows "(\<forall>v b t. fst (createOrUpdateChangelog env v b t) = Inr ())
       \<and> handle env s =
           stepsAfterChangelog env bs (inputPrefixes env) version projectName
             (snd (createOrUpdateChangelog env version (current bs) s3))"
proof -
  have never: "\<forall>v b t. fst (createOrUpdateChangelog env v b t) = Inr ()"
    unfolding createOrUpdateChangelog_def by (simp add: tryCatch_swallow)
  then obtain s4 where cl: "createOrUpdateChangelog env version (current bs) s3 = (Inr (), s4)"
    by (metis prod.collapse)
  have "handle env s = stepsAfterChangelog env bs (inputPrefixes env) version projectName s4"
    using assms cl by (simp add: handle_def stepsAfterChangelog_def bindR_def liftE_def Let_def)
  with never cl show ?thesis by simp
qed

theorem changelog_failure_never_aborts_witness:
  "fst (writeFileSync readOnlyEnv ''/work/CHANGELOG.md'' ''text'' start) = Inl (Thrown ''EACCES'')
 \<and> fst (createOrUpdateChangelog readOnlyEnv ''1.2.0'' ''release/1.2.0'' start) = Inr ()
 \<and> map isMergeOrDelete (emitted start (snd (createOrUpdateChangelog readOnlyEnv ''1.2.0'' ''release/1.2.0'' start)))
     = [False, False, False, False]
 \<and> fst (handle readOnlyEnv start) = Inr ''sha-main''"
proof -
  note ev = run_defs demo_defs readOnlyEnv_def
  define A where "A = readOnlyEnv"
  define s1 where "s1 = snd (getBranches A start)"
  define s2 where "s2 = snd (projectNameOf A s1)"
  define s3 where "s3 = snd (updateVersionFiles A demoBranches (inputPrefixes A) s2)"
  have h1: "getBranches A start = (Inr demoBranches, s1)" by (simp add: s1_def A_def ev)
  have h2: "extractVersionFromBranch (current demoBranches) (release (inputPrefixes A)) = Inr ''1.2.0''"
    by (simp add: A_def ev rx_eval)
  have h3: "projectNameOf A s1 = (Inr ''tool'', s2)" by (simp add: s2_def s1_def A_def ev)
  have h4: "updateVersionFiles A demoBranches (inputPrefixes A) s2 = (Inr (), s3)"
    by (simp add: s3_def s2_def s1_def A_def ev rx_eval)
  note inst = changelog_failure_never_aborts[OF h1 h2 h3 h4]
  from inst have "handle A start =
      stepsAfterChangelog A demoBranches (inputPrefixes A) ''1.2.0'' ''tool''
        (snd (createOrUpdateChangelog A ''1.2.0'' (current demoBranches) s3))"
    by blast
  moreover have "fst (stepsAfterChangelog A demoBranches (inputPrefixes A) ''1.2.0'' ''tool''
        (snd (createOrUpdateChangelog A ''1.2.0'' (current demoBranches) s3))) = Inr ''sha-main''"
    by (simp add: s3_def s2_def s1_def A_def ev rx_eval)
  ultimately have r: "fst (handle readOnlyEnv start) = Inr ''sha-main''"
    by (simp add: A_def)
  from inst have c: "fst (createOrUpdateChangelog readOnlyEnv ''1.2.0'' ''release/1.2.0'' start) = Inr ()"
    unfolding A_def by blast
  have w: "fst (writeFileSync readOnlyEnv ''/work/CHANGELOG.md'' ''text'' start) = Inl (Thrown ''EACCES'')"
    by (simp add: ev)
  have t: "map isMergeOrDelete (emitted start (snd (createOrUpdateChangelog readOnlyEnv ''1.2.0'' ''release/1.2.0'' start)))
     = [False, False, False, False]"
    by (simp add: ev emitted_def)
  from w c t r show ?thesis by simp
qed

text \<open>
  C2.  In a run of \<open>handle\<close> that succeeds, the current branch is merged into the
  development branch, then into the main branch; the result of the run is the commit
  identifier the second merge returned; the tag is created, the project built and the
  release published, each from the state the step before it left and each without error;
  then the current branch is deleted.  These are the only merges and the only deletion of
  the run.
\<close>

theorem Release_handle_order:
  assumes run: "handle env s = (Inr sha, s')"
  shows "\<exists>bs version projectName shaDev s1 s2 s3 s4 s5 s6.
           fst (getBranches env s) = Inr bs
         \<and> merge env (current bs) (development bs) s1 = (Inr shaDev, s2)
         \<and> merge env (current bs) (main bs) s2 = (Inr sha, s3)
         \<and> createTag env bs (inputPrefixes env) sha s3 = (Inr (), s4)
         \<and> buildProject env version projectName bs s4 = (Inr (), s5)
         \<and> createGitHubRelease env version projectName s5 = (Inr (), s6)
         \<and> delete env (current bs) s6 = (Inr (), s')
         \<and> filter isMergeOrDelete (emitted s s') =
             [Merge (current bs) (development bs), Merge (current bs) (main bs), Delete (current bs)]"
proof -
  from run obtain bs version projectName t0 t1 t2 t3 t4 s3 s4 s5 s6 where
    gb: "getBranches env s = (Inr bs, t0)"
    and ev: "liftE (extractVersionFromBranch (current bs) (release (inputPrefixes env))) t0 = (Inr version, t1)"
    and pn: "projectNameOf env t1 = (Inr projectName, t2)"
    and uv: "updateVersionFiles env bs (inputPrefixes env) t2 = (Inr (), t3)"
    and cl: "createOrUpdateChangelog env version (current bs) t3 = (Inr (), t4)"
    and mg: "Release_merge env bs t4 = (Inr sha, s3)"
    and ct: "createTag env bs (inputPrefixes env) sha s3 = (Inr (), s4)"
    and bp: "buildProject env version projectName bs s4 = (Inr (), s5)"
    and gr: "createGitHubRelease env version projectName s5 = (Inr (), s6)"
    and dl: "delete env (current bs) s6 = (Inr (), s')"
    by (auto simp: handle_def bindR_Inr_iff Let_def returnR_def)
  from mg obtain shaDev s2 where
    m1: "merge env (current bs) (development bs) t4 = (Inr shaDev, s2)"
    and m2: "merge env (current bs) (main bs) s2 = (Inr sha, s3)"
    by (auto simp: Release_merge_def bindR_Inr_iff returnR_def)
  have t1: "t1 = t0" using ev by (simp add: liftE_def)
  obtain e0 where e0: "trace t0 = trace s @ e0" "list_all quiet e0"
    using emitsOnlyD[OF quiet_getBranches gb] by blast
  obtain e2 where e2: "trace t2 = trace t1 @ e2" "list_all quiet e2"
    using emitsOnlyD[OF quiet_projectNameOf pn] by blast
  obtain e3 where e3: "trace t3 = trace t2 @ e3" "list_all quiet e3"
    using emitsOnlyD[OF quiet_updateVersionFiles uv] by blast
  obtain e4 where e4: "trace t4 = trace t3 @ e4" "list_all quiet e4"
    using emitsOnlyD[OF quiet_changelog cl] by blast
  have tm1: "trace s2 = trace t4 @ [Merge (current bs) (development bs)]"
    using m1 by (simp add: merge_def perform_trace)
  have tm2: "trace s3 = trace s2 @ [Merge (current bs) (main bs)]"
    using m2 by (simp add: merge_def perform_trace)
  obtain e5 where e5: "trace s4 = trace s3 @ e5" "list_all quiet e5"
    using emitsOnlyD[OF quiet_createTag ct] by blast
  obtain e6 where e6: "trace s5 = trace s4 @ e6" "list_all quiet e6"
    using emitsOnlyD[OF quiet_buildProject bp] by blast
  obtain e7 where e7: "trace s6 = trace s5 @ e7" "list_all quiet e7"
    using emitsOnlyD[OF quiet_createGitHubRelease gr] by blast
  have td: "trace s' = trace s6 @ [Delete (current bs)]"
    using dl by (simp add: delete_def perform_trace)
  have "emitted s s' =
          (e0 @ e2 @ e3 @ e4) @ [Merge (current bs) (development bs), Merge (current bs) (main bs)]
          @ (e5 @ e6 @ e7) @ [Delete (current bs)]"
    using e0 e2 e3 e4 tm1 tm2 e5 e6 e7 td t1 by (simp add: emitted_def)
  moreover have "filter isMergeOrDelete (e0 @ e2 @ e3 @ e4) = []"
    using e0 e2 e3 e4 by (simp add: filter_quiet)
  moreover have "filter isMergeOrDelete (e5 @ e6 @ e7) = []"
    using e5 e6 e7 by (simp add: filter_quiet)
  ultimately have tr: "filter isMergeOrDelete (emitted s s') =
      [Merge (current bs) (development bs), Merge (current bs) (main bs), Delete (current bs)]"
    by simp
  have "fst (getBranches env s) = Inr bs" using gb by simp
  with m1 m2 ct bp gr dl tr show ?thesis by blast
qed

theorem Release_handle_order_witness:
  "fst (handle demoEnv start) = Inr ''sha-main''
 \<and> (\<exists>bs version projectName shaDev s1 s2 s3 s4 s5 s6.
           fst (getBranches demoEnv start) = Inr bs
         \<and> merge demoEnv (current bs) (development bs) s1 = (Inr shaDev, s2)
         \<and> merge demoEnv (current bs) (main bs) s2 = (Inr ''sha-main'', s3)
         \<and> createTag demoEnv bs (inputPrefixes demoEnv) ''sha-main'' s3 = (Inr (), s4)
         \<and> buildProject demoEnv version projectName bs s4 = (Inr (), s5)
         \<and> createGitHubRelease demoEnv version projectName s5 = (Inr (), s6)
         \<and> delete demoEnv (current bs) s6 = (Inr (), snd (handle demoEnv start))
         \<and> filter isMergeOrDelete (emitted start (snd (handle demoEnv start))) =
             [Merge (current bs) (development bs), Merge (current bs) (main bs), Delete (current bs)])
 \<and> filter isMergeOrDelete (emitted start (snd (handle demoEnv start))) =
      [Merge ''release/1.2.0'' ''develop'', Merge ''release/1.2.0'' ''main'', Delete ''release/1.2.0'']"
proof -
  note ev = run_defs demo_defs
  have f: "fst (handle demoEnv start) = Inr ''sha-main''"
    by (simp add: ev rx_eval)
  then have h: "handle demoEnv start = (Inr ''sha-main'', snd (handle demoEnv start))"
    by (metis prod.collapse)
  have t: "filter isMergeOrDelete (emitted start (snd (handle demoEnv start))) =
      [Merge ''release/1.2.0'' ''develop'', Merge ''release/1.2.0'' ''main'', Delete ''release/1.2.0'']"
    by (simp add: ev rx_eval emitted_def)
  from Release_handle_order[OF h] f t show ?thesis by simp
qed

subsection \<open>Pull-request lookup\<close>

















subsection \<open>The changelog splice\<close>

lemma split_nl_not_Nil: "split_nl s \<noteq> []"
  by (induction s) (auto split: list.splits)

lemma join_split_nl: "join_nl (split_nl s) = s"
proof (induction s)
  case Nil
  show ?case by simp
next
  case (Cons c cs)
  obtain l ls where sp: "split_nl cs = l # ls"
    using split_nl_not_Nil[of cs] by (cases "split_nl cs") auto
  with Cons show ?case
    by (cases ls) auto
qed

lemma join_nl_append:
  "xs \<noteq> [] \<Longrightarrow> ys \<noteq> [] \<Longrightarrow> join_nl (xs @ ys) = join_nl xs @ newline # join_nl ys"
proof (induction xs rule: join_nl.induct)
  case 1
  then show ?case by simp
next
  case (2 l)
  then show ?case by (cases ys) auto
next
  case (3 l k ls)
  then show ?case by simp
qed

lemma findIndexFrom_found:
  "k < length ls \<Longrightarrow> P (ls ! k) (i + k) \<Longrightarrow> (\<forall>j<k. \<not> P (ls ! j) (i + j)) \<Longrightarrow>
   findIndexFrom P i ls = int (i + k)"
proof (induction ls arbitrary: i k)
  case Nil
  then show ?case by simp
next
  case (Cons l ls)
  show ?case
  proof (cases k)
    case 0
    with Cons.prems show ?thesis by simp
  next
    case (Suc k')
    from Cons.prems(3) Suc have "\<not> P l i" by force
    moreover have "findIndexFrom P (Suc i) ls = int (Suc i + k')"
    proof (rule Cons.IH)
      show "k' < length ls" using Cons.prems(1) Suc by simp
      show "P (ls ! k') (Suc i + k')" using Cons.prems(2) Suc by simp
      show "\<forall>j<k'. \<not> P (ls ! j) (Suc i + j)"
      proof (intro allI impI)
        fix j assume "j < k'"
        then have "Suc j < k" using Suc by simp
        with Cons.prems(3) have "\<not> P ((l # ls) ! Suc j) (i + Suc j)" by blast
        then show "\<not> P (ls ! j) (Suc i + j)" by simp
      qed
    qed
    ultimately show ?thesis using Suc by simp
  qed
qed

lemma findIndexFrom_none:
  "(\<forall>j<length ls. \<not> P (ls ! j) (i + j)) \<Longrightarrow> findIndexFrom P i ls = - 1"
proof (induction ls arbitrary: i)
  case Nil
  show ?case by simp
next
  case (Cons l ls)
  from Cons.prems have "\<not> P l i" by force
  moreover have "findIndexFrom P (Suc i) ls = - 1"
  proof (rule Cons.IH, intro allI impI)
    fix j assume "j < length ls"
    then have "Suc j < length (l # ls)" by simp
    with Cons.prems have "\<not> P ((l # ls) ! Suc j) (i + Suc j)" by blast
    then show "\<not> P (ls ! j) (Suc i + j)" by simp
  qed
  ultimately show ?case by simp
qed

lemma trim_empty_iff: "trim s = [] \<longleftrightarrow> list_all isWhiteSpace s"
proof -
  have "(\<forall>x\<in>set (dropWhile isWhiteSpace s). isWhiteSpace x) \<longleftrightarrow> dropWhile isWhiteSpace s = []"
  proof
    assume all: "\<forall>x\<in>set (dropWhile isWhiteSpace s). isWhiteSpace x"
    show "dropWhile isWhiteSpace s = []"
    proof (rule ccontr)
      assume ne: "dropWhile isWhiteSpace s \<noteq> []"
      then have "\<not> isWhiteSpace (hd (dropWhile isWhiteSpace s))" by (simp add: hd_dropWhile)
      moreover have "hd (dropWhile isWhiteSpace s) \<in> set (dropWhile isWhiteSpace s)"
        using ne by simp
      ultimately show False using all by blast
    qed
  next
    assume "dropWhile isWhiteSpace s = []"
    then show "\<forall>x\<in>set (dropWhile isWhiteSpace s). isWhiteSpace x"
      by (metis empty_iff empty_set)
  qed
  moreover have "trim s = [] \<longleftrightarrow> (\<forall>x\<in>set (dropWhile isWhiteSpace s). isWhiteSpace x)"
    by (auto simp: trim_def dropWhile_eq_Nil_conv dest: set_dropWhileD)
  moreover have "dropWhile isWhiteSpace s = [] \<longleftrightarrow> (\<forall>x\<in>set s. isWhiteSpace x)"
    by (simp add: dropWhile_eq_Nil_conv)
  ultimately show ?thesis
    unfolding list_all_iff by blast
qed

text \<open>
  What the splice does to a text that contains \<open># Changelog\<close>: the text is cut before
  the first line after line 0 that is not blank and does not start with \<open>#\<close>, or after
  four lines when there is no such line; the new entry, preceded by an empty line, is put
  at the cut, and both parts are kept as they are.
\<close>

lemma spliceChangelog_cut:
  assumes "str_includes existing ''# Changelog''"
    and "0 < k" and "k < length (split_nl existing)"
    and "trim (split_nl existing ! k) \<noteq> []" and "\<not> startsWith (split_nl existing ! k) ''#''"
    and "\<forall>j. 0 < j \<and> j < k \<longrightarrow> trim (split_nl existing ! j) = [] \<or> startsWith (split_nl existing ! j) ''#''"
  shows "spliceChangelog existing newEntry =
           join_nl (take k (split_nl existing)) @ [newline, newline] @ newEntry
           @ join_nl (drop k (split_nl existing))"
    and "existing = join_nl (take k (split_nl existing)) @ [newline] @ join_nl (drop k (split_nl existing))"
proof -
  let ?ls = "split_nl existing"
  have "findIndexFrom endsHeader 0 ?ls = int (0 + k)"
  proof (rule findIndexFrom_found)
    show "k < length ?ls" by (rule assms(3))
    show "endsHeader (?ls ! k) (0 + k)" using assms(2,4,5) by (simp add: endsHeader_def)
    show "\<forall>j<k. \<not> endsHeader (?ls ! j) (0 + j)"
      using assms(6) by (auto simp: endsHeader_def)
  qed
  then have "findIndex endsHeader ?ls = int k" by (simp add: findIndex_def)
  with assms(1,2) show "spliceChangelog existing newEntry =
           join_nl (take k ?ls) @ [newline, newline] @ newEntry @ join_nl (drop k ?ls)"
    by (simp add: spliceChangelog_def Let_def)
  have "take k ?ls \<noteq> []" "drop k ?ls \<noteq> []" using assms(2,3) by auto
  then have "join_nl (take k ?ls @ drop k ?ls) = join_nl (take k ?ls) @ newline # join_nl (drop k ?ls)"
    by (rule join_nl_append)
  then show "existing = join_nl (take k ?ls) @ [newline] @ join_nl (drop k ?ls)"
    by (simp add: join_split_nl)
qed

lemma spliceChangelog_fallback:
  assumes "str_includes existing ''# Changelog''"
    and "\<forall>j. 0 < j \<and> j < length (split_nl existing) \<longrightarrow>
           trim (split_nl existing ! j) = [] \<or> startsWith (split_nl existing ! j) ''#''"
  shows "spliceChangelog existing newEntry =
           join_nl (take 4 (split_nl existing)) @ [newline, newline] @ newEntry
           @ join_nl (drop 4 (split_nl existing))"
proof -
  have "findIndexFrom endsHeader 0 (split_nl existing) = - 1"
    by (rule findIndexFrom_none) (use assms(2) in \<open>auto simp: endsHeader_def\<close>)
  then have "findIndex endsHeader (split_nl existing) = - 1" by (simp add: findIndex_def)
  with assms(1) show ?thesis by (simp add: spliceChangelog_def Let_def)
qed

lemma spliceChangelog_new:
  "\<not> str_includes existing ''# Changelog'' \<Longrightarrow>
   spliceChangelog existing newEntry = standardHeader @ newEntry @ existing"
  by (simp add: spliceChangelog_def)

text \<open>
  C3.  On a changelog made of the heading and one entry in the format the handler itself
  writes, the splice does not put the new entry before the previous one: the heading line
  \<open># V1.0.0\<close> of the previous entry starts with \<open>#\<close> and is taken for a part of the header,
  so the new entry lands between that heading and the rest of the previous entry.
\<close>

theorem splice_lands_inside_previous_entry:
  "spliceChangelog (''# Changelog'' @ [newline, newline] @ previousEntry) nextEntry =
     ''# Changelog'' @ [newline, newline] @ ''# V1.0.0'' @ [newline, newline, newline]
     @ nextEntry @ drop 10 previousEntry
 \<and> spliceChangelog (''# Changelog'' @ [newline, newline] @ previousEntry) nextEntry \<noteq>
     ''# Changelog'' @ [newline, newline] @ nextEntry @ previousEntry
 \<and> take 10 previousEntry = ''# V1.0.0'' @ [newline, newline]"
  by (simp add: previousEntry_def nextEntry_def changelogEntry_def seePR_def orElse_def
      spliceChangelog_def findIndex_def endsHeader_def trim_def isWhiteSpace_def newline_def)

subsection \<open>The descriptor patch\<close>

lemma getSubstitution_plain:
  "CHR ''$'' \<notin> set template \<Longrightarrow> getSubstitution template matched preceding following = template"
  by (induction template matched preceding following rule: getSubstitution.induct) auto

lemma replaceVersionLines_match:
  assumes "s \<noteq> []" and "atLineStart b" and "startsWith s ''version:''"
  shows "replaceVersionLines t b s =
           getSubstitution t (take (matchLength s) s) b (drop (matchLength s) s)
           @ replaceVersionLines t (b @ take (matchLength s) s) (drop (matchLength s) s)"
proof -
  from assms(1) obtain c cs where s: "s = c # cs" by (cases s) auto
  show ?thesis
    unfolding s using assms(2,3)[unfolded s]
    by (subst replaceVersionLines.simps(2)) (simp only: Let_def simp_thms if_True)
qed

lemma replaceVersionLines_skip:
  assumes "\<not> (atLineStart b \<and> startsWith (c # cs) ''version:'')"
  shows "replaceVersionLines t b (c # cs) = c # replaceVersionLines t (b @ [c]) cs"
  using assms by (subst replaceVersionLines.simps(2)) (simp only: if_False)

lemma not_startsWith_extended:
  "\<not> startsWith l kw \<Longrightarrow> x \<notin> set kw \<Longrightarrow> \<not> startsWith (l @ x # r) kw"
  by (induction l kw rule: startsWith.induct) auto

lemma startsWith_append: "startsWith l kw \<Longrightarrow> startsWith (l @ r) kw"
  by (auto simp: startsWith_iff)

lemma replaceVersionLines_no_match:
  assumes "\<forall>pre post. s = pre @ ''version:'' @ post \<longrightarrow> \<not> atLineStart (b @ pre)"
  shows "replaceVersionLines t b s = s"
  using assms
proof (induction s arbitrary: b)
  case Nil
  show ?case by simp
next
  case (Cons c cs)
  have no: "\<not> (atLineStart b \<and> startsWith (c # cs) ''version:'')"
  proof
    assume h: "atLineStart b \<and> startsWith (c # cs) ''version:''"
    then obtain r where "c # cs = ''version:'' @ r" unfolding startsWith_iff by blast
    then have "c # cs = [] @ ''version:'' @ r" by simp
    with Cons.prems have "\<not> atLineStart (b @ [])" by blast
    then have "\<not> atLineStart b" by simp
    moreover from h have "atLineStart b" by blast
    ultimately show False by blast
  qed
  have "replaceVersionLines t (b @ [c]) cs = cs"
  proof (rule Cons.IH, intro allI impI)
    fix pre post assume "cs = pre @ ''version:'' @ post"
    then have "c # cs = (c # pre) @ ''version:'' @ post" by simp
    with Cons.prems have "\<not> atLineStart (b @ c # pre)" by blast
    then show "\<not> atLineStart ((b @ [c]) @ pre)" by simp
  qed
  with replaceVersionLines_skip[OF no, of t] show ?case by simp
qed

lemma copy_line:
  assumes "b \<noteq> []" and "\<not> isLineTerminator (last b)" and "\<forall>c\<in>set l. \<not> isLineTerminator c"
  shows "replaceVersionLines t b (l @ rest) = l @ replaceVersionLines t (b @ l) rest"
  using assms
proof (induction l arbitrary: b)
  case Nil
  show ?case by simp
next
  case (Cons c l)
  have "\<not> atLineStart b" using Cons.prems(1,2) by (simp add: atLineStart_def)
  then have step: "replaceVersionLines t b (c # (l @ rest)) = c # replaceVersionLines t (b @ [c]) (l @ rest)"
    by (intro replaceVersionLines_skip) blast
  have "replaceVersionLines t (b @ [c]) (l @ rest) = l @ replaceVersionLines t ((b @ [c]) @ l) rest"
  proof (rule Cons.IH)
    show "b @ [c] \<noteq> []" by simp
    show "\<not> isLineTerminator (last (b @ [c]))" using Cons.prems(3) by simp
    show "\<forall>c\<in>set l. \<not> isLineTerminator c" using Cons.prems(3) by simp
  qed
  with step show ?case by simp
qed

lemma matchLength_line:
  assumes "l = ''version:'' @ u" and "\<forall>c\<in>set u. \<not> isLineTerminator c"
    and "\<not> list_all isWhiteSpace u"
    and "rest = [] \<or> (\<exists>x r. rest = x # r \<and> isLineTerminator x)"
  shows "matchLength (l @ rest) = length l"
proof -
  from assms(3) obtain x where x: "x \<in> set u" "\<not> isWhiteSpace x" by (auto simp: list_all_iff)
  have d: "drop 8 (l @ rest) = u @ rest" unfolding assms(1) by simp
  have tw: "takeWhile isWhiteSpace (u @ rest) = takeWhile isWhiteSpace u"
    using x by (rule takeWhile_append1)
  have dw: "dropWhile isWhiteSpace (u @ rest) = dropWhile isWhiteSpace u @ rest"
    using x by (rule dropWhile_append1)
  have body: "takeWhile (\<lambda>c. \<not> isLineTerminator c) (dropWhile isWhiteSpace u @ rest) = dropWhile isWhiteSpace u"
  proof -
    have a: "\<And>c. c \<in> set (dropWhile isWhiteSpace u) \<Longrightarrow> \<not> isLineTerminator c"
      using assms(2) by (auto dest: set_dropWhileD)
    have b: "takeWhile (\<lambda>c. \<not> isLineTerminator c) rest = []"
      using assms(4) by auto
    show ?thesis using takeWhile_append2[of "dropWhile isWhiteSpace u" "\<lambda>c. \<not> isLineTerminator c" rest] a b
      by simp
  qed
  have len: "length (takeWhile isWhiteSpace u) + length (dropWhile isWhiteSpace u) = length u"
    by (metis length_append takeWhile_dropWhile_id)
  have "matchLength (l @ rest) = 8 + length (takeWhile isWhiteSpace u) + length (dropWhile isWhiteSpace u)"
    unfolding matchLength_def Let_def d tw dw body by (rule refl)
  also have "\<dots> = 8 + length u" using len by simp
  also have "\<dots> = length l" unfolding assms(1) by simp
  finally show ?thesis .
qed

lemma terminator_not_in_keyword: "isLineTerminator x \<Longrightarrow> x \<notin> set ''version:''"
  by (auto simp: isLineTerminator_def)

lemma replace_one_line:
  assumes "atLineStart b" and "\<forall>c\<in>set l. \<not> isLineTerminator c"
    and "startsWith l ''version:'' \<longrightarrow> \<not> list_all isWhiteSpace (drop 8 l)"
    and "rest = [] \<or> (\<exists>x r. rest = x # r \<and> isLineTerminator x)"
    and "CHR ''$'' \<notin> set version"
  shows "\<exists>b'. replaceVersionLines (''version: '' @ version) b (l @ rest) =
           patchLine version l @ replaceVersionLines (''version: '' @ version) b' rest
         \<and> (l \<noteq> [] \<longrightarrow> b' \<noteq> [] \<and> \<not> isLineTerminator (last b')) \<and> (l = [] \<longrightarrow> b' = b)"
proof (cases "startsWith l ''version:''")
  case True
  then obtain u where lu: "l = ''version:'' @ u" unfolding startsWith_iff by blast
  then have lne: "l \<noteq> []" by simp
  have u: "\<forall>c\<in>set u. \<not> isLineTerminator c" "\<not> list_all isWhiteSpace u"
    using assms(2,3) True lu by auto
  have n: "matchLength (l @ rest) = length l"
    by (rule matchLength_line[OF lu u assms(4)])
  have sw: "startsWith (l @ rest) ''version:''"
    using True by (rule startsWith_append)
  have ne: "l @ rest \<noteq> []" using lne by simp
  have dollar: "CHR ''$'' \<notin> set (''version: '' @ version)" using assms(5) by simp
  have "replaceVersionLines (''version: '' @ version) b (l @ rest) =
          (''version: '' @ version) @ replaceVersionLines (''version: '' @ version) (b @ l) rest"
    unfolding replaceVersionLines_match[OF ne assms(1) sw] n getSubstitution_plain[OF dollar]
    by simp
  moreover have "patchLine version l = ''version: '' @ version"
    using True by (simp only: patchLine_def if_True)
  moreover have "b @ l \<noteq> []" using lne by simp
  moreover have "\<not> isLineTerminator (last (b @ l))" using lne assms(2) by simp
  ultimately show ?thesis using lne by metis
next
  case False
  then have pl: "patchLine version l = l" by (simp only: patchLine_def if_False)
  show ?thesis
  proof (cases l)
    case Nil
    with pl show ?thesis by simp
  next
    case (Cons c cs)
    have nsw: "\<not> startsWith (l @ rest) ''version:''"
    proof (cases rest)
      case Nil
      with False show ?thesis by simp
    next
      case (Cons x xs)
      with assms(4) have "isLineTerminator x" by auto
      then have "x \<notin> set ''version:''" by (rule terminator_not_in_keyword)
      from not_startsWith_extended[OF False this] show ?thesis unfolding Cons .
    qed
    have c: "\<not> isLineTerminator c" "\<forall>x\<in>set cs. \<not> isLineTerminator x"
      using assms(2) Cons by auto
    have "\<not> (atLineStart b \<and> startsWith (c # (cs @ rest)) ''version:'')"
      using nsw unfolding Cons by simp
    then have s1: "replaceVersionLines (''version: '' @ version) b (c # (cs @ rest)) =
            c # replaceVersionLines (''version: '' @ version) (b @ [c]) (cs @ rest)"
      by (rule replaceVersionLines_skip)
    have s2: "replaceVersionLines (''version: '' @ version) (b @ [c]) (cs @ rest) =
            cs @ replaceVersionLines (''version: '' @ version) ((b @ [c]) @ cs) rest"
      by (rule copy_line) (use c in auto)
    have "replaceVersionLines (''version: '' @ version) b (l @ rest) =
            l @ replaceVersionLines (''version: '' @ version) (b @ l) rest"
      unfolding Cons using s1 s2 by simp
    moreover have "b @ l \<noteq> []" using Cons by simp
    moreover have "\<not> isLineTerminator (last (b @ l))" using Cons assms(2) by simp
    moreover have "l \<noteq> []" using Cons by simp
    ultimately show ?thesis using pl by metis
  qed
qed

lemma replace_segments:
  assumes "segmented segs" and "atLineStart b"
    and "\<forall>seg\<in>set segs. startsWith (fst seg) ''version:'' \<longrightarrow> \<not> list_all isWhiteSpace (drop 8 (fst seg))"
    and "CHR ''$'' \<notin> set version"
  shows "replaceVersionLines (''version: '' @ version) b (concat (map (\<lambda>seg. fst seg @ snd seg) segs)) =
           concat (map (\<lambda>seg. patchLine version (fst seg) @ snd seg) segs)"
  using assms
proof (induction segs arbitrary: b rule: segmented.induct)
  case 1
  then show ?case by simp
next
  case (2 l t)
  have "\<exists>b'. replaceVersionLines (''version: '' @ version) b (l @ []) =
           patchLine version l @ replaceVersionLines (''version: '' @ version) b' []
         \<and> (l \<noteq> [] \<longrightarrow> b' \<noteq> [] \<and> \<not> isLineTerminator (last b')) \<and> (l = [] \<longrightarrow> b' = b)"
    by (rule replace_one_line) (use 2 in \<open>auto simp: list_all_iff\<close>)
  with 2(1) show ?case by auto
next
  case (3 l t seg segs)
  let ?t = "''version: '' @ version"
  from 3(2) obtain x where t: "t = [x]" and x: "isLineTerminator x"
    by (cases t) auto
  let ?tail = "concat (map (\<lambda>seg. fst seg @ snd seg) (seg # segs))"
  let ?rest = "x # ?tail"
  have "\<exists>b'. replaceVersionLines ?t b (l @ ?rest) =
           patchLine version l @ replaceVersionLines ?t b' ?rest
         \<and> (l \<noteq> [] \<longrightarrow> b' \<noteq> [] \<and> \<not> isLineTerminator (last b')) \<and> (l = [] \<longrightarrow> b' = b)"
    by (rule replace_one_line) (use 3(2-) x in \<open>auto simp: list_all_iff\<close>)
  then obtain b' where
    st: "replaceVersionLines ?t b (l @ ?rest) = patchLine version l @ replaceVersionLines ?t b' ?rest"
    by blast
  have "x \<notin> set ''version:''" using x by (rule terminator_not_in_keyword)
  then have "\<not> startsWith ?rest ''version:''" by simp
  then have "\<not> (atLineStart b' \<and> startsWith ?rest ''version:'')" by blast
  then have nl: "replaceVersionLines ?t b' ?rest = x # replaceVersionLines ?t (b' @ [x]) ?tail"
    by (rule replaceVersionLines_skip)
  have ih: "replaceVersionLines ?t (b' @ [x]) ?tail =
      concat (map (\<lambda>seg. patchLine version (fst seg) @ snd seg) (seg # segs))"
  proof (rule 3(1))
    show "segmented (seg # segs)" using 3(2) by simp
    show "atLineStart (b' @ [x])" using x by (simp add: atLineStart_def)
    show "\<forall>seg\<in>set (seg # segs). startsWith (fst seg) ''version:'' \<longrightarrow>
        \<not> list_all isWhiteSpace (drop 8 (fst seg))"
      using 3(4) by simp
    show "CHR ''$'' \<notin> set version" by (rule 3(5))
  qed
  have "concat (map (\<lambda>seg. fst seg @ snd seg) ((l, t) # seg # segs)) = l @ ?rest"
    unfolding t by simp
  moreover have "concat (map (\<lambda>seg. patchLine version (fst seg) @ snd seg) ((l, t) # seg # segs)) =
      patchLine version l @ x # concat (map (\<lambda>seg. patchLine version (fst seg) @ snd seg) (seg # segs))"
    unfolding t by simp
  ultimately show ?case using st nl ih by (simp only:)
qed

lemma lineSegments_not_Nil: "lineSegments s \<noteq> []"
  by (induction s) (auto split: list.splits)

lemma segmented_lineSegments: "segmented (lineSegments s)"
proof (induction s)
  case Nil
  show ?case by simp
next
  case (Cons c cs)
  obtain l t segs where sp: "lineSegments cs = (l, t) # segs"
    using lineSegments_not_Nil[of cs] by (cases "lineSegments cs") auto
  show ?case
  proof (cases "isLineTerminator c")
    case True
    with Cons sp show ?thesis by simp
  next
    case False
    with Cons sp show ?thesis by (cases segs) auto
  qed
qed

lemma concat_lineSegments: "concat (map (\<lambda>seg. fst seg @ snd seg) (lineSegments s)) = s"
proof (induction s)
  case Nil
  show ?case by simp
next
  case (Cons c cs)
  obtain l t segs where sp: "lineSegments cs = (l, t) # segs"
    using lineSegments_not_Nil[of cs] by (cases "lineSegments cs") auto
  with Cons show ?case by auto
qed

lemma segmented_lines:
  "segmented segs \<Longrightarrow>
   \<forall>seg\<in>set segs. list_all (\<lambda>c. \<not> isLineTerminator c) (fst seg)
      \<and> length (snd seg) \<le> 1 \<and> list_all isLineTerminator (snd seg)"
  by (induction segs rule: segmented.induct) auto

text \<open>
  C8, as the code has it.  The text is returned unchanged when \<open>version:\<close> stands at the
  start of no line.  Every text is the sequence of its lines, each but the last followed by
  the line terminator that ends it.  For a version without \<open>$\<close>, when the lines starting
  with \<open>version:\<close> have a character other than white space after the colon, every such
  line, not only the first, is replaced by \<open>version: \<close> and the version, and the other
  lines and all line terminators are kept.
\<close>

theorem updateMtaYamlVersion_replaces_every_version_line:
  "((\<forall>pre post. content = pre @ ''version:'' @ post \<longrightarrow> \<not> atLineStart pre) \<longrightarrow>
      updateMtaYamlVersion content version = content)
 \<and> (CHR ''$'' \<notin> set version
      \<and> (\<forall>seg\<in>set (lineSegments content).
            startsWith (fst seg) ''version:'' \<longrightarrow> \<not> list_all isWhiteSpace (drop 8 (fst seg))) \<longrightarrow>
      updateMtaYamlVersion content version =
        concat (map (\<lambda>seg. patchLine version (fst seg) @ snd seg) (lineSegments content)))
 \<and> concat (map (\<lambda>seg. fst seg @ snd seg) (lineSegments content)) = content
 \<and> segmented (lineSegments content)"
proof (intro conjI impI)
  assume "\<forall>pre post. content = pre @ ''version:'' @ post \<longrightarrow> \<not> atLineStart pre"
  then have "\<forall>pre post. content = pre @ ''version:'' @ post \<longrightarrow> \<not> atLineStart ([] @ pre)"
    by simp
  then show "updateMtaYamlVersion content version = content"
    unfolding updateMtaYamlVersion_def by (rule replaceVersionLines_no_match)
next
  assume h: "CHR ''$'' \<notin> set version
      \<and> (\<forall>seg\<in>set (lineSegments content).
            startsWith (fst seg) ''version:'' \<longrightarrow> \<not> list_all isWhiteSpace (drop 8 (fst seg)))"
  have "replaceVersionLines (''version: '' @ version) []
          (concat (map (\<lambda>seg. fst seg @ snd seg) (lineSegments content))) =
        concat (map (\<lambda>seg. patchLine version (fst seg) @ snd seg) (lineSegments content))"
  proof (rule replace_segments)
    show "segmented (lineSegments content)" by (rule segmented_lineSegments)
    show "atLineStart []" by (simp add: atLineStart_def)
    show "\<forall>seg\<in>set (lineSegments content).
            startsWith (fst seg) ''version:'' \<longrightarrow> \<not> list_all isWhiteSpace (drop 8 (fst seg))"
      using h by blast
    show "CHR ''$'' \<notin> set version" using h by blast
  qed
  then show "updateMtaYamlVersion content version =
        concat (map (\<lambda>seg. patchLine version (fst seg) @ snd seg) (lineSegments content))"
    unfolding updateMtaYamlVersion_def concat_lineSegments .
next
  show "concat (map (\<lambda>seg. fst seg @ snd seg) (lineSegments content)) = content"
    by (rule concat_lineSegments)
next
  show "segmented (lineSegments content)" by (rule segmented_lineSegments)
qed

theorem updateMtaYamlVersion_replaces_every_version_line_witness:
  "updateMtaYamlVersion ''ID: app'' ''3.0.0'' = ''ID: app''
 \<and> updateMtaYamlVersion
     (''ID: app'' @ [CHR 0x0D, CHR 0x0A] @ ''version: 1.0.0'' @ [CHR 0x0D, CHR 0x0A]
      @ ''name: x'' @ [CHR 0x0A, CHR 0x0A] @ ''version:2'') ''3.0.0'' =
     ''ID: app'' @ [CHR 0x0D, CHR 0x0A] @ ''version: 3.0.0'' @ [CHR 0x0D, CHR 0x0A]
      @ ''name: x'' @ [CHR 0x0A, CHR 0x0A] @ ''version: 3.0.0''
 \<and> lineSegments (''version: 1.0.0'' @ [CHR 0x0D, CHR 0x0A] @ ''name: x'') =
     [(''version: 1.0.0'', [CHR 0x0D]), ([], [CHR 0x0A]), (''name: x'', [])]"
proof -
  define yaml where "yaml =
     ''ID: app'' @ [CHR 0x0D, CHR 0x0A] @ ''version: 1.0.0'' @ [CHR 0x0D, CHR 0x0A]
      @ ''name: x'' @ [CHR 0x0A, CHR 0x0A] @ ''version:2''"
  have "\<not> str_includes ''ID: app'' ''version:''" by simp
  then have a: "\<forall>pre post. ''ID: app'' = pre @ ''version:'' @ post \<longrightarrow> \<not> atLineStart pre"
    unfolding includes_iff by blast
  have segs: "lineSegments yaml =
      [(''ID: app'', [CHR 0x0D]), ([], [CHR 0x0A]), (''version: 1.0.0'', [CHR 0x0D]), ([], [CHR 0x0A]),
       (''name: x'', [CHR 0x0A]), ([], [CHR 0x0A]), (''version:2'', [])]"
    by (simp add: yaml_def isLineTerminator_def)
  have b: "CHR ''$'' \<notin> set ''3.0.0''
      \<and> (\<forall>seg\<in>set (lineSegments yaml).
            startsWith (fst seg) ''version:'' \<longrightarrow> \<not> list_all isWhiteSpace (drop 8 (fst seg)))"
    unfolding segs by (simp add: isWhiteSpace_def)
  note inst = updateMtaYamlVersion_replaces_every_version_line
  from inst[of "''ID: app''" "''3.0.0''"] a
  have r1: "updateMtaYamlVersion ''ID: app'' ''3.0.0'' = ''ID: app''" by blast
  from inst[of yaml "''3.0.0''"] b
  have "updateMtaYamlVersion yaml ''3.0.0'' =
      concat (map (\<lambda>seg. patchLine ''3.0.0'' (fst seg) @ snd seg) (lineSegments yaml))"
    by blast
  then have r2: "updateMtaYamlVersion yaml ''3.0.0'' =
     ''ID: app'' @ [CHR 0x0D, CHR 0x0A] @ ''version: 3.0.0'' @ [CHR 0x0D, CHR 0x0A]
      @ ''name: x'' @ [CHR 0x0A, CHR 0x0A] @ ''version: 3.0.0''"
    unfolding segs by (simp add: patchLine_def)
  have r3: "lineSegments (''version: 1.0.0'' @ [CHR 0x0D, CHR 0x0A] @ ''name: x'') =
     [(''version: 1.0.0'', [CHR 0x0D]), ([], [CHR 0x0A]), (''name: x'', [])]"
    by (simp add: isLineTerminator_def)
  from r1 r2 r3 show ?thesis unfolding yaml_def by blast
qed

text \<open>
  C8, as stated, fails: in a text with two lines that start with \<open>version:\<close>, both are
  replaced, not only the first.
\<close>

theorem second_version_line_is_replaced_too:
  "updateMtaYamlVersion (join_nl [''version: 1.0.0'', ''name: x'', ''version: 2.0.0'']) ''3.0.0'' =
     join_nl [''version: 3.0.0'', ''name: x'', ''version: 3.0.0'']
 \<and> updateMtaYamlVersion (join_nl [''version: 1.0.0'', ''name: x'', ''version: 2.0.0'']) ''3.0.0'' \<noteq>
     join_nl [''version: 3.0.0'', ''name: x'', ''version: 2.0.0'']"
  by (simp add: updateMtaYamlVersion_def matchLength_def atLineStart_def isWhiteSpace_def
      isLineTerminator_def newline_def)

text \<open>
  Two further effects of the pattern, outside the statement above: \<open>\s*\<close> runs over line
  ends, so a line \<open>version:\<close> with nothing but white space after the colon takes the next
  line with it; and \<open>$&\<close> in the version stands for the matched text.  A carriage return
  ends a line as a line feed does.
\<close>

lemma blank_version_line_takes_the_next_line:
  "updateMtaYamlVersion (join_nl [''version:'', ''ID: app'', ''name: x'']) ''3.0.0'' =
     join_nl [''version: 3.0.0'', ''name: x'']"
  by (simp add: updateMtaYamlVersion_def matchLength_def atLineStart_def isWhiteSpace_def
      isLineTerminator_def newline_def)

lemma dollar_in_version_is_a_pattern:
  "updateMtaYamlVersion ''version: 1.0.0'' ''$&-rc'' = ''version: version: 1.0.0-rc''"
  by (simp add: updateMtaYamlVersion_def matchLength_def atLineStart_def isWhiteSpace_def
      isLineTerminator_def newline_def)

lemma carriage_return_ends_a_version_line:
  "updateMtaYamlVersion (''version: 1.0.0'' @ [CHR 0x0D, CHR 0x0A] @ ''version: 2.0.0'' @ [CHR 0x0D, CHR 0x0A]) ''3.0.0'' =
     ''version: 3.0.0'' @ [CHR 0x0D, CHR 0x0A] @ ''version: 3.0.0'' @ [CHR 0x0D, CHR 0x0A]"
  by (simp add: updateMtaYamlVersion_def matchLength_def atLineStart_def isWhiteSpace_def
      isLineTerminator_def newline_def)

subsection \<open>Version extraction\<close>

lemma tokens_plain:
  "isPlainPrefix cs \<Longrightarrow> tokens cs = Some (map (\<lambda>c. TAtom (Lit c)) cs)"
  by (induction cs) (auto simp: isPlainPrefix_def isSyntaxCharacter_def)

lemma tokens_replaced:
  "isPlainPrefix p \<Longrightarrow>
   tokens (replaceFirstSlash p [backslash, CHR ''/'']) = Some (map (\<lambda>c. TAtom (Lit c)) p)"
proof (induction p)
  case Nil
  show ?case by simp
next
  case (Cons c p)
  then have p: "isPlainPrefix p" and c: "\<not> isSyntaxCharacter c" by (auto simp: isPlainPrefix_def)
  show ?case
  proof (cases "c = CHR ''/''")
    case True
    with tokens_plain[OF p] show ?thesis by simp
  next
    case False
    with Cons.IH[OF p] c show ?thesis by (auto simp: isSyntaxCharacter_def)
  qed
qed

lemma pieces_literals:
  "pieces (map (\<lambda>c. TAtom (Lit c)) p) = Some (map (\<lambda>c. (Lit c, One)) p)"
  by (induction p rule: induct_list012) auto

lemma compilePrefix_plain:
  "isPlainPrefix p \<Longrightarrow>
   compilePrefix (replaceFirstSlash p [backslash, CHR ''/'']) = Some (map (\<lambda>c. (Lit c, One)) p)"
  by (simp add: compilePrefix_def tokens_replaced pieces_literals)

lemma seqRests_literals:
  "seqRests (map (\<lambda>c. (Lit c, One)) p) b = (if startsWith b p then [drop (length p) b] else [])"
proof (induction p arbitrary: b)
  case Nil
  show ?case by simp
next
  case (Cons c p)
  show ?case by (cases b) (auto simp: Cons.IH)
qed

lemma repeatRests_iff:
  "r \<in> set (repeatRests a s) \<longleftrightarrow> (\<exists>x. s = x @ r \<and> list_all (atomMatches a) x)"
proof (induction s)
  case Nil
  show ?case by auto
next
  case (Cons c cs)
  show ?case
  proof
    assume "r \<in> set (repeatRests a (c # cs))"
    then consider "r = c # cs" | "atomMatches a c" "r \<in> set (repeatRests a cs)"
      by (auto split: if_splits)
    then show "\<exists>x. c # cs = x @ r \<and> list_all (atomMatches a) x"
    proof cases
      case 1
      then have "c # cs = [] @ r \<and> list_all (atomMatches a) []" by simp
      then show ?thesis by blast
    next
      case 2
      then obtain x where "cs = x @ r" "list_all (atomMatches a) x" using Cons.IH by blast
      with 2(1) have "c # cs = (c # x) @ r \<and> list_all (atomMatches a) (c # x)" by simp
      then show ?thesis by blast
    qed
  next
    assume "\<exists>x. c # cs = x @ r \<and> list_all (atomMatches a) x"
    then obtain x where x: "c # cs = x @ r" "list_all (atomMatches a) x" by blast
    show "r \<in> set (repeatRests a (c # cs))"
    proof (cases x)
      case Nil
      with x show ?thesis by auto
    next
      case (Cons y ys)
      with x have "atomMatches a c" "cs = ys @ r" "list_all (atomMatches a) ys" by auto
      then show ?thesis using Cons.IH by auto
    qed
  qed
qed

lemma plus_rests_iff:
  "r \<in> set (pieceRests (a, Plus) s) \<longleftrightarrow> (\<exists>x. x \<noteq> [] \<and> s = x @ r \<and> list_all (atomMatches a) x)"
proof (cases s)
  case Nil
  then show ?thesis by auto
next
  case (Cons c cs)
  show ?thesis
  proof
    assume "r \<in> set (pieceRests (a, Plus) s)"
    with Cons have m: "atomMatches a c" and "r \<in> set (repeatRests a cs)" by (auto split: if_splits)
    then obtain x where "cs = x @ r" "list_all (atomMatches a) x" unfolding repeatRests_iff by blast
    with m Cons have "c # x \<noteq> [] \<and> s = (c # x) @ r \<and> list_all (atomMatches a) (c # x)" by simp
    then show "\<exists>x. x \<noteq> [] \<and> s = x @ r \<and> list_all (atomMatches a) x" by blast
  next
    assume "\<exists>x. x \<noteq> [] \<and> s = x @ r \<and> list_all (atomMatches a) x"
    then obtain y ys where "s = (y # ys) @ r" "list_all (atomMatches a) (y # ys)"
      by (metis list.exhaust)
    with Cons have "atomMatches a c" "cs = ys @ r" "list_all (atomMatches a) ys" by auto
    then have "r \<in> set (repeatRests a cs)" unfolding repeatRests_iff by blast
    with \<open>atomMatches a c\<close> Cons show "r \<in> set (pieceRests (a, Plus) s)" by simp
  qed
qed

lemma literal_rests_iff: "r \<in> set (pieceRests (Lit d, One) s) \<longleftrightarrow> s = d # r"
  by (cases s) auto

lemma seqRests_Cons_iff:
  "r \<in> set (seqRests (p # ps) s) \<longleftrightarrow> (\<exists>m. m \<in> set (pieceRests p s) \<and> r \<in> set (seqRests ps m))"
  by auto

lemma matchesVersionToEnd_iff: "matchesVersionToEnd r \<longleftrightarrow> isVersionLiteral r"
proof -
  have "matchesVersionToEnd r \<longleftrightarrow>
      (\<exists>m1 m2 m3 m4. m1 \<in> set (pieceRests (Digit, Plus) r) \<and> m2 \<in> set (pieceRests (Lit CHR ''.'', One) m1)
         \<and> m3 \<in> set (pieceRests (Digit, Plus) m2) \<and> m4 \<in> set (pieceRests (Lit CHR ''.'', One) m3)
         \<and> [] \<in> set (pieceRests (Digit, Plus) m4))"
    unfolding matchesVersionToEnd_def versionGroup_def seqRests_Cons_iff by auto
  also have "\<dots> \<longleftrightarrow>
      (\<exists>x y z m1 m2 m3 m4. x \<noteq> [] \<and> r = x @ m1 \<and> list_all isDigit x \<and> m1 = CHR ''.'' # m2
         \<and> y \<noteq> [] \<and> m2 = y @ m3 \<and> list_all isDigit y \<and> m3 = CHR ''.'' # m4
         \<and> z \<noteq> [] \<and> m4 = z @ [] \<and> list_all isDigit z)"
    unfolding plus_rests_iff literal_rests_iff
    by (simp add: atomMatches.simps[abs_def]) blast
  also have "\<dots> \<longleftrightarrow> isVersionLiteral r"
    unfolding isVersionLiteral_def by auto
  finally show ?thesis .
qed

text \<open>
  For a prefix without syntax characters the code does what C1 says: the branch names it
  accepts are exactly the prefix followed by a version literal, and the result is that
  literal.
\<close>

lemma extractVersionFromBranch_plain_prefix:
  assumes "isPlainPrefix p"
  shows "extractVersionFromBranch b p =
           (if \<exists>v. b = p @ v \<and> isVersionLiteral v then Inr (drop (length p) b)
            else Inl (ValidationError b))"
proof (cases "startsWith b p")
  case True
  then obtain v where v: "b = p @ v" by (auto simp: startsWith_iff)
  then have "(\<exists>v. b = p @ v \<and> isVersionLiteral v) \<longleftrightarrow> isVersionLiteral (drop (length p) b)"
    by auto
  with True show ?thesis
    by (simp add: extractVersionFromBranch_def compilePrefix_plain[OF assms] seqRests_literals
        matchesVersionToEnd_iff)
next
  case False
  then have "\<not> (\<exists>v. b = p @ v \<and> isVersionLiteral v)" by (auto simp: startsWith_iff)
  with False show ?thesis
    by (simp add: extractVersionFromBranch_def compilePrefix_plain[OF assms] seqRests_literals)
qed

text \<open>
  C1.  The release prefix is put into the pattern as it is, so its characters are read as
  pattern syntax.  With the prefix \<open>release+\<close> the branch \<open>release+1.2.3\<close>, which is the
  prefix followed by a version, is rejected, and the branch \<open>releaseee1.2.3\<close>, which does
  not start with the prefix, is accepted; with the prefix \<open>release.\<close> the branch
  \<open>releaseX1.2.3\<close> is accepted.
\<close>

theorem release_prefix_is_read_as_a_pattern:
  "extractVersionFromBranch ''release+1.2.3'' ''release+'' = Inl (ValidationError ''release+1.2.3'')
 \<and> extractVersionFromBranch ''releaseee1.2.3'' ''release+'' = Inr ''1.2.3''
 \<and> extractVersionFromBranch ''releaseX1.2.3'' ''release.'' = Inr ''1.2.3''"
  by (simp add: rx_eval)

subsection \<open>Runs on a branch that is not a release branch\<close>

text \<open>
  For a prefix without syntax characters, a run on a branch that is not the prefix
  followed by a version literal stops at the extraction: \<open>getBranches\<close> is its only call.
\<close>

lemma handle_plain_prefix_rejects:
  assumes "getBranches env s = (Inr bs, s1)"
    and "isPlainPrefix (release (inputPrefixes env))"
    and "\<not> (\<exists>v. current bs = release (inputPrefixes env) @ v \<and> isVersionLiteral v)"
  shows "handle env s =
           (Inl (ValidationError (current bs)),
            s\<lparr>world := snd (gh_getBranches env (world s)), trace := trace s @ [GetBranches]\<rparr>)
       \<and> emitted s (snd (handle env s)) = [GetBranches]"
proof -
  have "extractVersionFromBranch (current bs) (release (inputPrefixes env)) =
      Inl (ValidationError (current bs))"
    using assms(3) by (simp add: extractVersionFromBranch_plain_prefix[OF assms(2)])
  then have "handle env s = (Inl (ValidationError (current bs)), s1)"
    using assms(1) by (simp add: handle_def bindR_def liftE_def Let_def)
  with getBranches_state[OF assms(1)] show ?thesis
    by (simp add: emitted_def)
qed


end
